theory Spec2Isabelle
  imports
    Complex_Main
    "HOL-Library.AList"
    "HOL-Library.Char_ord"
    "HOL-Library.List_Lexorder"
begin

section \<open>Strings and the regular expressions of the two tools\<close>

text \<open>
  Python strings are modelled as \<^typ>\<open>string\<close>: a list of characters with code points
  0 to 255. The order on strings is the lexicographic order of the code points, which is
  the order Python's \<^verbatim>\<open>sorted\<close> uses on \<^verbatim>\<open>str\<close>.
\<close>

definition newline :: char where
  "newline = CHR 0x0A"

text \<open>\<^verbatim>\<open>str.isspace\<close> on one character, which is also what \<^verbatim>\<open>\s\<close> matches.\<close>

definition is_space :: "char \<Rightarrow> bool" where
  "is_space c =
     (let n = (of_char c :: nat)
      in (9 \<le> n \<and> n \<le> 13) \<or> (28 \<le> n \<and> n \<le> 32) \<or> n = 133 \<or> n = 160)"

text \<open>\<^verbatim>\<open>content.split('\n')\<close>: never empty, one more piece than there are newlines.\<close>

fun split_nl :: "string \<Rightarrow> string list" where
  "split_nl [] = [[]]"
| "split_nl (c # cs) =
     (if c = newline then [] # split_nl cs
      else (case split_nl cs of [] \<Rightarrow> [[c]] | l # ls \<Rightarrow> (c # l) # ls))"

text \<open>\<^verbatim>\<open>s[a:b]\<close> for \<open>0 \<le> a \<le> b\<close>.\<close>

definition slice :: "string \<Rightarrow> nat \<Rightarrow> nat \<Rightarrow> string" where
  "slice s a b = take (b - a) (drop a s)"

definition starts_with :: "string \<Rightarrow> string \<Rightarrow> bool" where
  "starts_with s l = (take (length l) s = l)"

text \<open>
  \<^verbatim>\<open>str.replace(old, new)\<close>: the occurrences of \<open>old\<close> are replaced from left to
  right without overlap; an empty \<open>old\<close> matches before every character and at the end.
\<close>

function replace_ne :: "string \<Rightarrow> string \<Rightarrow> string \<Rightarrow> string" where
  "replace_ne old new [] = []"
| "replace_ne old new (c # cs) =
     (if old \<noteq> [] \<and> starts_with (c # cs) old
      then new @ replace_ne old new (drop (length old) (c # cs))
      else c # replace_ne old new cs)"
  by pat_completeness auto
termination
  by (relation "measure (\<lambda>(old, new, s). length s)") auto

definition replace :: "string \<Rightarrow> string \<Rightarrow> string \<Rightarrow> string" where
  "replace old new s =
     (if old = [] then new @ concat (map (\<lambda>c. c # new) s) else replace_ne old new s)"

subsection \<open>A backtracking matcher\<close>

text \<open>
  The patterns of both tools are sequences of literals, one-character classes under
  \<^verbatim>\<open>+\<close> or \<^verbatim>\<open>*\<close>, an alternative of literals, and group boundaries. The matcher
  follows the order in which Python's \<^verbatim>\<open>re\<close> tries the possibilities: a repetition
  first takes as many characters as it can and gives them back one at a time, and an
  alternative tries its branches from left to right. \<open>Mark\<close> records the position of a
  group boundary.
\<close>

datatype cls = Dot | Space | NonSpace | OneOf string

datatype atom = Lit string | ILit string | One cls | Plus cls | Star cls
  | Alt "string list" | Mark

fun cls_ok :: "cls \<Rightarrow> char \<Rightarrow> bool" where
  "cls_ok Dot c = (c \<noteq> newline)"
| "cls_ok Space c = is_space c"
| "cls_ok NonSpace c = (\<not> is_space c)"
| "cls_ok (OneOf cs) c = (c \<in> set cs)"

text \<open>
  \<^verbatim>\<open>re.IGNORECASE\<close>: a character of the text matches a letter of the pattern when
  both are the same after the letters A to Z are turned into lower case.
\<close>

definition lower :: "char \<Rightarrow> char" where
  "lower c =
     (case map_of (zip ''ABCDEFGHIJKLMNOPQRSTUVWXYZ'' ''abcdefghijklmnopqrstuvwxyz'') c of
        Some d \<Rightarrow> d
      | None \<Rightarrow> c)"

fun starts_with_ci :: "string \<Rightarrow> string \<Rightarrow> bool" where
  "starts_with_ci s [] = True"
| "starts_with_ci [] (c # l) = False"
| "starts_with_ci (x # s) (c # l) =
     (if lower x = lower c then starts_with_ci s l else False)"

fun first_some :: "('a \<Rightarrow> 'b option) \<Rightarrow> 'a list \<Rightarrow> 'b option" where
  "first_some f [] = None"
| "first_some f (x # xs) = (case f x of Some r \<Rightarrow> Some r | None \<Rightarrow> first_some f xs)"

fun rx_match :: "atom list \<Rightarrow> string \<Rightarrow> nat \<Rightarrow> nat list \<Rightarrow> nat list option" where
  "rx_match [] s pos ms = Some ms"
| "rx_match (Mark # as) s pos ms = rx_match as s pos (ms @ [pos])"
| "rx_match (Lit l # as) s pos ms =
     (if starts_with s l then rx_match as (drop (length l) s) (pos + length l) ms
      else None)"
| "rx_match (ILit l # as) s pos ms =
     (if starts_with_ci s l then rx_match as (drop (length l) s) (pos + length l) ms
      else None)"
| "rx_match (Alt ls # as) s pos ms =
     first_some
       (\<lambda>l. if starts_with s l then rx_match as (drop (length l) s) (pos + length l) ms
            else None) ls"
| "rx_match (One k # as) [] pos ms = None"
| "rx_match (One k # as) (c # s) pos ms =
     (if cls_ok k c then rx_match as s (Suc pos) ms else None)"
| "rx_match (Plus k # as) [] pos ms = None"
| "rx_match (Plus k # as) (c # s) pos ms =
     (if cls_ok k c
      then (case rx_match (Plus k # as) s (Suc pos) ms of
              Some r \<Rightarrow> Some r
            | None \<Rightarrow> rx_match as s (Suc pos) ms)
      else None)"
| "rx_match (Star k # as) [] pos ms = rx_match as [] pos ms"
| "rx_match (Star k # as) (c # s) pos ms =
     (if cls_ok k c
      then (case rx_match (Star k # as) s (Suc pos) ms of
              Some r \<Rightarrow> Some r
            | None \<Rightarrow> rx_match as (c # s) pos ms)
      else rx_match as (c # s) pos ms)"

text \<open>\<^verbatim>\<open>re.match\<close> anchors at the start of the line; \<^verbatim>\<open>re.search\<close> tries every start.\<close>

definition re_match :: "atom list \<Rightarrow> string \<Rightarrow> nat list option" where
  "re_match p s = rx_match p s 0 []"

fun re_search :: "atom list \<Rightarrow> string \<Rightarrow> bool" where
  "re_search p [] = (rx_match p [] 0 [] \<noteq> None)"
| "re_search p (c # s) = (rx_match p (c # s) 0 [] \<noteq> None \<or> re_search p s)"

subsection \<open>\<^verbatim>\<open>str\<close> and \<^verbatim>\<open>repr\<close> of integers and strings\<close>

definition digit :: "nat \<Rightarrow> char" where
  "digit n = (if n < 10 then char_of (48 + n) else char_of (87 + n))"

function str_nat :: "nat \<Rightarrow> string" where
  "str_nat n = (if n < 10 then [digit n] else str_nat (n div 10) @ [digit (n mod 10)])"
  by pat_completeness auto
termination
  by (relation "measure id") auto

definition str_int :: "int \<Rightarrow> string" where
  "str_int i = (if i < 0 then CHR ''-'' # str_nat (nat (- i)) else str_nat (nat i))"

definition squote :: char where
  "squote = CHR 0x27"

definition dquote :: char where
  "dquote = CHR 0x22"

definition backslash :: char where
  "backslash = CHR 0x5C"

text \<open>One character inside the quotes \<open>q\<close> of the \<^verbatim>\<open>repr\<close> of a string.\<close>

definition repr_char :: "char \<Rightarrow> char \<Rightarrow> string" where
  "repr_char q c =
     (let n = (of_char c :: nat)
      in if c = q \<or> c = backslash then [backslash, c]
         else if n = 9 then [backslash, CHR ''t'']
         else if n = 10 then [backslash, CHR ''n'']
         else if n = 13 then [backslash, CHR ''r'']
         else if n < 32 \<or> (127 \<le> n \<and> n \<le> 160) \<or> n = 173
           then [backslash, CHR ''x'', digit (n div 16), digit (n mod 16)]
         else [c])"

definition repr_str :: "string \<Rightarrow> string" where
  "repr_str s =
     (let q = (if squote \<in> set s \<and> dquote \<notin> set s then dquote else squote)
      in [q] @ concat (map (repr_char q) s) @ [q])"

fun join :: "string \<Rightarrow> string list \<Rightarrow> string" where
  "join sep [] = []"
| "join sep [x] = x"
| "join sep (x # y # ys) = x @ sep @ join sep (y # ys)"

section \<open>detect\_flaky.py\<close>

record TestResult =
  name :: string
  outcomes :: "string list"
  is_flaky :: bool

record FlakyReport =
  total_tests :: int
  flaky_tests :: "TestResult list"
  stable_tests :: int
  runs :: int
  framework :: string

definition is_stable :: "FlakyReport \<Rightarrow> bool" where
  "is_stable r = (length (flaky_tests r) = 0)"

text \<open>The outcome names of the comment on \<^verbatim>\<open>TestResult.outcomes\<close>.\<close>

definition TestOutcome :: "string set" where
  "TestOutcome = {''PASS'', ''FAIL'', ''ERROR'', ''SKIP''}"

text \<open>
  A run's result map is a Python \<^verbatim>\<open>dict\<close> from test name to outcome: an association
  list in insertion order, written with \<^const>\<open>AList.update\<close> and read with
  \<^const>\<open>map_of\<close>.
\<close>

type_synonym results = "(string \<times> string) list"

datatype error = OSError | ValueError | UnicodeDecodeError | IndexError | SyntaxError
  | AttributeError | TypeError | KeyError

text \<open>
  What \<^verbatim>\<open>subprocess.run(..., capture_output=True, text=True)\<close> gives. It raises
  \<^verbatim>\<open>FileNotFoundError\<close> (an \<^verbatim>\<open>OSError\<close>) when the executable cannot be started. It
  raises \<^verbatim>\<open>UnicodeDecodeError\<close> when the child has run and its output is not text in
  the encoding of the locale. Otherwise it returns the exit status with the captured
  output, whatever the status is (\<^verbatim>\<open>check\<close> is not set).
\<close>

datatype proc_result =
    NotStarted
  | Undecodable
  | Completed (returncode: int) (stdout: string) (stderr: string)

text \<open>
  \<^verbatim>\<open>detect_framework\<close> looks at the file system: whether the test path holds Python
  test files, whether it holds Jest test files, whether \<^verbatim>\<open>Cargo.toml\<close> exists.
\<close>

definition detect_framework :: "bool \<Rightarrow> bool \<Rightarrow> bool \<Rightarrow> string" where
  "detect_framework py_tests jest_tests cargo_toml =
     (if py_tests then ''pytest''
      else if jest_tests then ''jest''
      else if cargo_toml then ''cargo''
      else ''pytest'')"

subsection \<open>The pytest adapter\<close>

text \<open>\<^verbatim>\<open>(.+::.+)\s+(PASSED|FAILED|ERROR|SKIPPED)\<close>\<close>

definition pytest_re :: "atom list" where
  "pytest_re =
     [Mark, Plus Dot, Lit ''::'', Plus Dot, Mark, Plus Space, Mark,
      Alt [''PASSED'', ''FAILED'', ''ERROR'', ''SKIPPED''], Mark]"

text \<open>The two groups of a match: \<^verbatim>\<open>match.group(1)\<close> and \<^verbatim>\<open>match.group(2)\<close>.\<close>

definition groups2 :: "atom list \<Rightarrow> string \<Rightarrow> (string \<times> string) option" where
  "groups2 p line =
     (case re_match p line of
        Some [a, b, c, d] \<Rightarrow> Some (slice line a b, slice line c d)
      | _ \<Rightarrow> None)"

definition pytest_outcome :: "string \<Rightarrow> string" where
  "pytest_outcome outcome = replace ''SKIPPED'' ''SKIP'' (replace ''PASSED'' ''PASS'' outcome)"

fun pytest_lines :: "string list \<Rightarrow> results \<Rightarrow> results" where
  "pytest_lines [] res = res"
| "pytest_lines (line # ls) res =
     (case groups2 pytest_re line of
        Some (test_name, outcome) \<Rightarrow>
          pytest_lines ls (AList.update test_name (pytest_outcome outcome) res)
      | None \<Rightarrow> pytest_lines ls res)"

fun run_pytest :: "proc_result \<Rightarrow> error + results" where
  "run_pytest NotStarted = Inl OSError"
| "run_pytest Undecodable = Inl UnicodeDecodeError"
| "run_pytest (Completed rc out err) = Inr (pytest_lines (split_nl (out @ err)) [])"

subsection \<open>The Jest adapter\<close>

text \<open>
  What \<^verbatim>\<open>json.loads\<close> returns: \<^verbatim>\<open>None\<close>, a truth value, a number, a string, a
  list, or a \<^verbatim>\<open>dict\<close> with strings as keys, each key once, in the order of the
  document. The numbers are integers.
\<close>

datatype json = JNull | JBool bool | JInt int | JStr string | JList "json list"
  | JDict "(string \<times> json) list"

text \<open>\<^verbatim>\<open>repr(v)\<close>, and \<^verbatim>\<open>str(v)\<close> as an f-string writes a value.\<close>

fun py_repr :: "json \<Rightarrow> string" where
  "py_repr JNull = ''None''"
| "py_repr (JBool b) = (if b then ''True'' else ''False'')"
| "py_repr (JInt i) = str_int i"
| "py_repr (JStr s) = repr_str s"
| "py_repr (JList xs) = ''['' @ join '', '' (map py_repr xs) @ '']''"
| "py_repr (JDict kvs) =
     ''{'' @ join '', '' (map (\<lambda>kv. repr_str (fst kv) @ '': '' @ py_repr (snd kv)) kvs) @ ''}''"

definition py_str :: "json \<Rightarrow> string" where
  "py_str v = (case v of JStr s \<Rightarrow> s | _ \<Rightarrow> py_repr v)"

text \<open>\<^verbatim>\<open>obj.get(key, default)\<close>: only a \<^verbatim>\<open>dict\<close> has the method.\<close>

definition py_get :: "json \<Rightarrow> string \<Rightarrow> json \<Rightarrow> error + json" where
  "py_get obj key dflt =
     (case obj of
        JDict kvs \<Rightarrow> Inr (case map_of kvs key of Some v \<Rightarrow> v | None \<Rightarrow> dflt)
      | _ \<Rightarrow> Inl AttributeError)"

text \<open>
  The values that a \<^verbatim>\<open>for\<close> loop takes: the elements of a list, the keys of a
  \<^verbatim>\<open>dict\<close>, the characters of a string; the other values are not iterable.
\<close>

definition py_iter :: "json \<Rightarrow> error + json list" where
  "py_iter v =
     (case v of
        JList xs \<Rightarrow> Inr xs
      | JDict kvs \<Rightarrow> Inr (map (\<lambda>kv. JStr (fst kv)) kvs)
      | JStr s \<Rightarrow> Inr (map (\<lambda>c. JStr [c]) s)
      | _ \<Rightarrow> Inl TypeError)"

text \<open>\<^verbatim>\<open>obj[key]\<close> for a string \<open>key\<close>.\<close>

definition py_item :: "json \<Rightarrow> string \<Rightarrow> error + json" where
  "py_item obj key =
     (case obj of
        JDict kvs \<Rightarrow> (case map_of kvs key of Some v \<Rightarrow> Inr v | None \<Rightarrow> Inl KeyError)
      | _ \<Rightarrow> Inl TypeError)"

text \<open>
  The lookup of the status with default \<^verbatim>\<open>"ERROR"\<close>: a list or a \<^verbatim>\<open>dict\<close> cannot be
  hashed.
\<close>

definition jest_outcome :: "json \<Rightarrow> error + string" where
  "jest_outcome status =
     (case status of
        JStr s \<Rightarrow>
          Inr (case map_of [(''passed'', ''PASS''), (''failed'', ''FAIL''), (''pending'', ''SKIP'')] s of
                 Some v \<Rightarrow> v
               | None \<Rightarrow> ''ERROR'')
      | JList xs \<Rightarrow> Inl TypeError
      | JDict kvs \<Rightarrow> Inl TypeError
      | _ \<Rightarrow> Inr ''ERROR'')"

text \<open>The inner loop, over the assertions of one \<^verbatim>\<open>test_result\<close>.\<close>

fun jest_assertions :: "json \<Rightarrow> json list \<Rightarrow> results \<Rightarrow> error + results" where
  "jest_assertions test_result [] res = Inr res"
| "jest_assertions test_result (assertion # as) res =
     (case py_item test_result ''name'' of
        Inl e \<Rightarrow> Inl e
      | Inr nm \<Rightarrow>
     (case py_item assertion ''fullName'' of
        Inl e \<Rightarrow> Inl e
      | Inr full_name \<Rightarrow>
     (case py_item assertion ''status'' of
        Inl e \<Rightarrow> Inl e
      | Inr status \<Rightarrow>
     (case jest_outcome status of
        Inl e \<Rightarrow> Inl e
      | Inr outcome \<Rightarrow>
          jest_assertions test_result as
            (AList.update (py_str nm @ ''::'' @ py_str full_name) outcome res)))))"

text \<open>The outer loop, over \<^verbatim>\<open>data.get("testResults", [])\<close>.\<close>

fun jest_test_results :: "json list \<Rightarrow> results \<Rightarrow> error + results" where
  "jest_test_results [] res = Inr res"
| "jest_test_results (test_result # trs) res =
     (case py_get test_result ''assertionResults'' (JList []) of
        Inl e \<Rightarrow> Inl e
      | Inr v \<Rightarrow>
     (case py_iter v of
        Inl e \<Rightarrow> Inl e
      | Inr as \<Rightarrow>
     (case jest_assertions test_result as res of
        Inl e \<Rightarrow> Inl e
      | Inr res' \<Rightarrow> jest_test_results trs res')))"

definition jest_document :: "json \<Rightarrow> error + results" where
  "jest_document data =
     (case py_get data ''testResults'' (JList []) of
        Inl e \<Rightarrow> Inl e
      | Inr v \<Rightarrow>
     (case py_iter v of
        Inl e \<Rightarrow> Inl e
      | Inr trs \<Rightarrow> jest_test_results trs []))"

text \<open>
  \<open>loads\<close> is \<^verbatim>\<open>json.loads\<close>, with \<open>None\<close> where it raises \<^verbatim>\<open>JSONDecodeError\<close>: that
  is the one exception that \<^verbatim>\<open>run_jest\<close> catches, and the result is then empty. Only
  \<^verbatim>\<open>stdout\<close> is read.
\<close>

fun run_jest :: "(string \<Rightarrow> json option) \<Rightarrow> proc_result \<Rightarrow> error + results" where
  "run_jest loads NotStarted = Inl OSError"
| "run_jest loads Undecodable = Inl UnicodeDecodeError"
| "run_jest loads (Completed rc out err) =
     (case loads out of None \<Rightarrow> Inr [] | Some data \<Rightarrow> jest_document data)"

subsection \<open>The cargo adapter\<close>

text \<open>\<^verbatim>\<open>test\s+(\S+)\s+\.\.\.\s+(ok|FAILED|ignored)\<close>\<close>

definition cargo_re :: "atom list" where
  "cargo_re =
     [Lit ''test'', Plus Space, Mark, Plus NonSpace, Mark, Plus Space, Lit ''...'',
      Plus Space, Mark, Alt [''ok'', ''FAILED'', ''ignored''], Mark]"

text \<open>The dictionary lookup with default \<^verbatim>\<open>"ERROR"\<close>.\<close>

definition cargo_outcome :: "string \<Rightarrow> string" where
  "cargo_outcome outcome =
     (case map_of [(''ok'', ''PASS''), (''FAILED'', ''FAIL''), (''ignored'', ''SKIP'')] outcome of
        Some v \<Rightarrow> v
      | None \<Rightarrow> ''ERROR'')"

fun cargo_lines :: "string list \<Rightarrow> results \<Rightarrow> results" where
  "cargo_lines [] res = res"
| "cargo_lines (line # ls) res =
     (case groups2 cargo_re line of
        Some (test_name, outcome) \<Rightarrow>
          cargo_lines ls (AList.update test_name (cargo_outcome outcome) res)
      | None \<Rightarrow> cargo_lines ls res)"

fun run_cargo :: "proc_result \<Rightarrow> error + results" where
  "run_cargo NotStarted = Inl OSError"
| "run_cargo Undecodable = Inl UnicodeDecodeError"
| "run_cargo (Completed rc out err) = Inr (cargo_lines (split_nl (out @ err)) [])"

subsection \<open>Running and comparing\<close>

text \<open>
  \<^verbatim>\<open>run_tests\<close> picks the runner by name and raises \<^verbatim>\<open>ValueError\<close> for an unknown
  framework. The Jest runner needs \<^verbatim>\<open>json.loads\<close>: the parameter \<open>jest\<close> is
  \<^const>\<open>run_jest\<close> with a decoder.
\<close>

definition run_tests ::
  "(proc_result \<Rightarrow> error + results) \<Rightarrow> string \<Rightarrow> proc_result \<Rightarrow> error + results" where
  "run_tests jest fw p =
     (case map_of [(''pytest'', run_pytest), (''jest'', jest), (''cargo'', run_cargo)] fw of
        None \<Rightarrow> Inl ValueError
      | Some runner \<Rightarrow> runner p)"

text \<open>The loop over \<^verbatim>\<open>range(runs)\<close>: an exception of one run ends the loop.\<close>

fun run_loop ::
  "(proc_result \<Rightarrow> error + results) \<Rightarrow> string \<Rightarrow> proc_result list \<Rightarrow> results list
   \<Rightarrow> error + results list" where
  "run_loop jest fw [] all_results = Inr all_results"
| "run_loop jest fw (p # ps) all_results =
     (case run_tests jest fw p of
        Inl e \<Rightarrow> Inl e
      | Inr res \<Rightarrow> run_loop jest fw ps (all_results @ [res]))"

definition all_test_names :: "results list \<Rightarrow> string set" where
  "all_test_names all_results = (\<Union>res \<in> set all_results. set (map fst res))"

definition get_outcomes :: "results list \<Rightarrow> string \<Rightarrow> string list" where
  "get_outcomes all_results test_name =
     map (\<lambda>res. case map_of res test_name of Some v \<Rightarrow> v | None \<Rightarrow> ''MISSING'') all_results"

text \<open>
  The loop over \<^verbatim>\<open>sorted(all_test_names)\<close> with its two accumulators
  \<^verbatim>\<open>test_results\<close> and \<^verbatim>\<open>flaky_tests\<close>.
\<close>

fun analyse ::
  "results list \<Rightarrow> string list \<Rightarrow> TestResult list \<times> TestResult list
   \<Rightarrow> TestResult list \<times> TestResult list" where
  "analyse all_results [] acc = acc"
| "analyse all_results (test_name # ns) (test_results, flaky) =
     (let outcomes = get_outcomes all_results test_name;
          unique_outcomes = set outcomes;
          is_flaky = (card unique_outcomes > 1);
          result = \<lparr>name = test_name, outcomes = outcomes, is_flaky = is_flaky\<rparr>
      in analyse all_results ns
           (test_results @ [result], if is_flaky then flaky @ [result] else flaky))"

text \<open>The record that the loop builds for one test name.\<close>

definition test_result :: "results list \<Rightarrow> string \<Rightarrow> TestResult" where
  "test_result all_results test_name =
     \<lparr>name = test_name,
      outcomes = get_outcomes all_results test_name,
      is_flaky = (card (set (get_outcomes all_results test_name)) > 1)\<rparr>"

definition flaky_report :: "results list \<Rightarrow> int \<Rightarrow> string \<Rightarrow> FlakyReport" where
  "flaky_report all_results n fw =
     (let (test_results, flaky) =
            analyse all_results (sorted_list_of_set (all_test_names all_results)) ([], [])
      in \<lparr>total_tests = int (length test_results),
          flaky_tests = flaky,
          stable_tests = int (length test_results) - int (length flaky),
          runs = n,
          framework = fw\<rparr>)"

text \<open>
  \<open>env i\<close> is what the child process of run \<open>i\<close> does; \<open>detected\<close> is the result of
  \<^const>\<open>detect_framework\<close> on the test path.
\<close>

definition detect_flaky_tests ::
  "(proc_result \<Rightarrow> error + results) \<Rightarrow> string \<Rightarrow> (nat \<Rightarrow> proc_result) \<Rightarrow> int
   \<Rightarrow> string option \<Rightarrow> error + FlakyReport" where
  "detect_flaky_tests jest detected env n fw_opt =
     (let fw = (case fw_opt of None \<Rightarrow> detected | Some f \<Rightarrow> f)
      in case run_loop jest fw (map env [0..<nat n]) [] of
           Inl e \<Rightarrow> Inl e
         | Inr all_results \<Rightarrow> Inr (flaky_report all_results n fw))"

section \<open>detect\_cheating.py\<close>

subsection \<open>Syntax trees\<close>

text \<open>
  The trees are those of Python's \<^verbatim>\<open>ast\<close> module, for the statements and
  expressions below. Constants are integers, strings, booleans and \<^verbatim>\<open>None\<close>. The fields are
  in the order in which \<^verbatim>\<open>ast\<close> declares them, which is the order of
  \<^verbatim>\<open>generic_visit\<close>; a dictionary display has its list of keys, where \<open>None\<close> stands
  for a \<^verbatim>\<open>**\<close> entry, and its list of values. \<open>IfStmt\<close> is \<^verbatim>\<open>ast.If\<close> with
  \<^verbatim>\<open>lineno\<close>, \<^verbatim>\<open>test\<close>, \<^verbatim>\<open>body\<close> and \<^verbatim>\<open>orelse\<close>; a function definition has
  its name, \<^verbatim>\<open>lineno\<close>, \<^verbatim>\<open>end_lineno\<close> and body.
\<close>

datatype const = CInt int | CStr string | CBool bool | CNone

datatype cmpop = Eq | NotEq | Lt | LtE | Gt | GtE | Is | IsNot | In | NotIn

datatype expr =
    Constant const
  | Name string
  | Attribute expr string
  | Compare expr "cmpop list" "expr list"
  | Call expr "expr list"
  | Tuple "expr list"
  | Dict int "expr option list" "expr list"

datatype stmt =
    IfStmt int expr "stmt list" "stmt list"
  | Return "expr option"
  | FunctionDef string int int "stmt list"
  | AsyncFunctionDef string int int "stmt list"
  | Assign "expr list" expr
  | Expr expr
  | Assert expr "expr option"
  | Pass

subsection \<open>\<^verbatim>\<open>repr\<close> and \<^verbatim>\<open>ast.unparse\<close>\<close>

fun repr :: "const \<Rightarrow> string" where
  "repr (CInt i) = str_int i"
| "repr (CStr s) = repr_str s"
| "repr (CBool b) = (if b then ''True'' else ''False'')"
| "repr CNone = ''None''"

fun cmpop_str :: "cmpop \<Rightarrow> string" where
  "cmpop_str Eq = ''==''"
| "cmpop_str NotEq = ''!=''"
| "cmpop_str Lt = ''<''"
| "cmpop_str LtE = ''<=''"
| "cmpop_str Gt = ''>''"
| "cmpop_str GtE = ''>=''"
| "cmpop_str Is = ''is''"
| "cmpop_str IsNot = ''is not''"
| "cmpop_str In = ''in''"
| "cmpop_str NotIn = ''not in''"

text \<open>An integer literal before a dot is followed by a space; \<^verbatim>\<open>bool\<close> is an \<^verbatim>\<open>int\<close>.\<close>

fun is_int_constant :: "expr \<Rightarrow> bool" where
  "is_int_constant (Constant (CInt i)) = True"
| "is_int_constant (Constant (CBool b)) = True"
| "is_int_constant e = False"

text \<open>
  The unparser writes a comparison in parentheses where the context binds tighter than a
  comparison: as an operand of a comparison, as the callee of a call, before a dot and
  after \<^verbatim>\<open>**\<close> (\<open>tight\<close>). A tuple is written in parentheses in all these places.
\<close>

function unparse_at :: "bool \<Rightarrow> expr \<Rightarrow> string" where
  "unparse_at tight (Constant c) = repr c"
| "unparse_at tight (Name n) = n"
| "unparse_at tight (Attribute v a) =
     unparse_at True v @ (if is_int_constant v then '' '' else []) @ ''.'' @ a"
| "unparse_at tight (Compare l ops cs) =
     (let body = unparse_at True l
            @ concat (map (\<lambda>i. '' '' @ cmpop_str (ops ! i) @ '' '' @ unparse_at True (cs ! i))
                        [0..<min (length ops) (length cs)])
      in if tight then ''('' @ body @ '')'' else body)"
| "unparse_at tight (Call f args) =
     unparse_at True f @ ''('' @ join '', '' (map (unparse_at False) args) @ '')''"
| "unparse_at tight (Tuple es) =
     ''('' @ (if length es = 1 then unparse_at False (es ! 0) @ '',''
             else join '', '' (map (unparse_at False) es)) @ '')''"
| "unparse_at tight (Dict lno ks vs) =
     ''{'' @ join '', ''
              (map (\<lambda>i. case ks ! i of
                           None \<Rightarrow> ''**'' @ unparse_at True (vs ! i)
                         | Some k \<Rightarrow> unparse_at False k @ '': '' @ unparse_at False (vs ! i))
                 [0..<min (length ks) (length vs)]) @ ''}''"
  by pat_completeness auto
termination
proof -
  have el: "size x \<le> size_list size xs" if "x \<in> set xs" for x :: expr and xs
    using that by (rule size_list_estimation') simp
  have nth: "size (xs ! i) \<le> size_list size xs" if "i < length xs" for i and xs :: "expr list"
    using that by (simp add: el)
  have key: "size k < size_list (size_option size) ks"
    if "i < length ks" "ks ! i = Some k" for i k and ks :: "expr option list"
  proof -
    from that have "Some k \<in> set ks" by (metis nth_mem)
    then have "size_option size (Some k) \<le> size_list (size_option size) ks"
      by (rule size_list_estimation') simp
    then show ?thesis by simp
  qed
  show ?thesis
  proof (relation "measure (\<lambda>(t, e). size e)", goal_cases)
    case (4 tight l ops cs x)
    then show ?case using nth [of x cs] by simp
  next
    case (6 tight f args x)
    then show ?case using el [of x args] by simp
  next
    case (7 tight es)
    then show ?case using nth [of 0 es] by simp
  next
    case (8 tight es x)
    then show ?case using el [of x es] by simp
  next
    case (9 tight lno ks vs x)
    then show ?case using nth [of x vs] by simp
  next
    case (10 tight lno ks vs x k)
    then show ?case using key [of x ks k] by simp
  next
    case (11 tight lno ks vs x k)
    then show ?case using nth [of x vs] by simp
  qed simp_all
qed

definition unparse :: "expr \<Rightarrow> string" where
  "unparse e = unparse_at False e"

subsection \<open>Files, lines and findings\<close>

text \<open>
  The file system is a map from paths to contents, and \<^verbatim>\<open>ast.parse\<close> is a map from
  contents to trees: \<^verbatim>\<open>read_text\<close> raises \<^verbatim>\<open>OSError\<close> on a missing file and
  \<^verbatim>\<open>ast.parse\<close> raises \<^verbatim>\<open>SyntaxError\<close> on malformed source. Both are parameters of
  every function that reads a file.
\<close>

type_synonym files = "string \<Rightarrow> string option"

type_synonym parser = "string \<Rightarrow> stmt list option"

definition read_text :: "files \<Rightarrow> string \<Rightarrow> error + string" where
  "read_text fs path = (case fs path of None \<Rightarrow> Inl OSError | Some content \<Rightarrow> Inr content)"

definition ast_parse :: "parser \<Rightarrow> string \<Rightarrow> error + stmt list" where
  "ast_parse parse content =
     (case parse content of None \<Rightarrow> Inl SyntaxError | Some tree \<Rightarrow> Inr tree)"

text \<open>\<^verbatim>\<open>xs[i]\<close>: a negative index counts from the end, an index out of range raises.\<close>

definition index_list :: "'a list \<Rightarrow> int \<Rightarrow> error + 'a" where
  "index_list xs i =
     (let n = int (length xs)
      in if 0 \<le> i \<and> i < n then Inr (xs ! nat i)
         else if - n \<le> i \<and> i < 0 then Inr (xs ! nat (n + i))
         else Inl IndexError)"

definition strip :: "string \<Rightarrow> string" where
  "strip s = rev (dropWhile is_space (rev (dropWhile is_space s)))"

text \<open>\<^verbatim>\<open>sub in s\<close> on strings.\<close>

fun contains :: "string \<Rightarrow> string \<Rightarrow> bool" where
  "contains [] sub = (sub = [])"
| "contains (c # s) sub = (starts_with (c # s) sub \<or> contains s sub)"

record CheatingPattern =
  pattern_type :: string
  description :: string
  "file" :: string
  line :: int
  code_snippet :: string
  severity :: string

text \<open>
  An exception raised while a finding is built ends the detector. A visitor returns the
  findings it appends, each one a finding or the exception raised in its place, and
  \<open>collect\<close> gives the list, or the first exception.
\<close>

fun collect :: "(error + 'a) list \<Rightarrow> error + 'a list" where
  "collect [] = Inr []"
| "collect (x # xs) =
     (case x of
        Inl e \<Rightarrow> Inl e
      | Inr v \<Rightarrow> (case collect xs of Inl e \<Rightarrow> Inl e | Inr vs \<Rightarrow> Inr (v # vs)))"

subsection \<open>\<^verbatim>\<open>extract_test_values\<close>\<close>

record test_values =
  inputs :: "string set"
  outputs :: "string set"

text \<open>An addition to one of the two sets.\<close>

datatype tv = Input string | Output string

fun extract_value :: "expr \<Rightarrow> tv list" where
  "extract_value (Constant c) = [Output (repr c)]"
| "extract_value (Tuple es) = concat (map extract_value es)"
| "extract_value (Call f args) =
     concat (map (\<lambda>arg. case arg of Constant c \<Rightarrow> [Input (repr c)] | _ \<Rightarrow> []) args)"
| "extract_value e = []"

definition extract_comparison :: "expr \<Rightarrow> tv list" where
  "extract_comparison e =
     (case e of
        Compare l ops cs \<Rightarrow> extract_value l @ concat (map extract_value cs)
      | _ \<Rightarrow> [])"

definition visit_Call :: "expr \<Rightarrow> expr list \<Rightarrow> tv list" where
  "visit_Call f args =
     (case f of
        Attribute v attr \<Rightarrow>
          if attr \<in> set [''assertEqual'', ''assertEquals'', ''assertAlmostEqual'']
             \<and> length args \<ge> 2
          then concat (map extract_value args) else []
      | _ \<Rightarrow> [])"

fun tv_expr :: "expr \<Rightarrow> tv list" where
  "tv_expr (Constant c) = []"
| "tv_expr (Name n) = []"
| "tv_expr (Attribute v a) = tv_expr v"
| "tv_expr (Compare l ops cs) = tv_expr l @ concat (map tv_expr cs)"
| "tv_expr (Call f args) = visit_Call f args @ tv_expr f @ concat (map tv_expr args)"
| "tv_expr (Tuple es) = concat (map tv_expr es)"
| "tv_expr (Dict lno ks vs) =
     concat (map (\<lambda>k. case k of None \<Rightarrow> [] | Some e \<Rightarrow> tv_expr e) ks)
       @ concat (map tv_expr vs)"

fun tv_stmt :: "stmt \<Rightarrow> tv list" where
  "tv_stmt (IfStmt lno t b e) = tv_expr t @ concat (map tv_stmt b) @ concat (map tv_stmt e)"
| "tv_stmt (Return v) = (case v of None \<Rightarrow> [] | Some e \<Rightarrow> tv_expr e)"
| "tv_stmt (FunctionDef nm lno end_lno b) = concat (map tv_stmt b)"
| "tv_stmt (AsyncFunctionDef nm lno end_lno b) = concat (map tv_stmt b)"
| "tv_stmt (Assign ts v) = concat (map tv_expr ts) @ tv_expr v"
| "tv_stmt (Expr e) = tv_expr e"
| "tv_stmt (Assert t msg) =
     extract_comparison t @ tv_expr t @ (case msg of None \<Rightarrow> [] | Some e \<Rightarrow> tv_expr e)"
| "tv_stmt Pass = []"

definition extract_test_values :: "files \<Rightarrow> parser \<Rightarrow> string \<Rightarrow> error + test_values" where
  "extract_test_values fs parse test_file =
     (case read_text fs test_file of
        Inl e \<Rightarrow> Inl e
      | Inr content \<Rightarrow>
          (case ast_parse parse content of
             Inl e \<Rightarrow> Inl e
           | Inr tree \<Rightarrow>
               (let added = concat (map tv_stmt tree)
                in Inr \<lparr>inputs = set (concat (map (\<lambda>a. case a of Input s \<Rightarrow> [s] | _ \<Rightarrow> []) added)),
                        outputs = set (concat (map (\<lambda>a. case a of Output s \<Rightarrow> [s] | _ \<Rightarrow> []) added))\<rparr>)))"

subsection \<open>\<^verbatim>\<open>detect_hardcoded_returns\<close>\<close>

text \<open>The body of the loop over \<^verbatim>\<open>node.body\<close> in \<^verbatim>\<open>visit_If\<close>.\<close>

definition hardcoded_return ::
  "string list \<Rightarrow> string \<Rightarrow> test_values \<Rightarrow> int \<Rightarrow> string \<Rightarrow> stmt
   \<Rightarrow> (error + CheatingPattern) list" where
  "hardcoded_return lines impl_file tvs lno condition_str st =
     (case st of
        Return (Some v) \<Rightarrow>
          (let return_val = unparse v
           in if return_val \<in> outputs tvs
                 \<and> (\<exists>inp \<in> inputs tvs. contains condition_str inp)
              then [case index_list lines (lno - 1) of
                      Inl e \<Rightarrow> Inl e
                    | Inr l \<Rightarrow>
                        Inr \<lparr>pattern_type = ''hardcoded_return'',
                             description =
                               ''Returns '' @ return_val @ '' when condition matches test input'',
                             file = impl_file,
                             line = lno,
                             code_snippet = strip l,
                             severity = ''high''\<rparr>]
              else [])
      | _ \<Rightarrow> [])"

definition visit_If ::
  "string list \<Rightarrow> string \<Rightarrow> test_values \<Rightarrow> int \<Rightarrow> expr \<Rightarrow> stmt list
   \<Rightarrow> (error + CheatingPattern) list" where
  "visit_If lines impl_file tvs lno test body =
     concat (map (hardcoded_return lines impl_file tvs lno (unparse test)) body)"

fun hc_visit ::
  "string list \<Rightarrow> string \<Rightarrow> test_values \<Rightarrow> stmt \<Rightarrow> (error + CheatingPattern) list" where
  "hc_visit lines impl_file tvs (IfStmt lno t b e) =
     visit_If lines impl_file tvs lno t b
       @ concat (map (hc_visit lines impl_file tvs) b)
       @ concat (map (hc_visit lines impl_file tvs) e)"
| "hc_visit lines impl_file tvs (FunctionDef nm lno end_lno b) =
     concat (map (hc_visit lines impl_file tvs) b)"
| "hc_visit lines impl_file tvs (AsyncFunctionDef nm lno end_lno b) =
     concat (map (hc_visit lines impl_file tvs) b)"
| "hc_visit lines impl_file tvs st = []"

definition detect_hardcoded_returns ::
  "files \<Rightarrow> parser \<Rightarrow> string \<Rightarrow> test_values \<Rightarrow> error + CheatingPattern list" where
  "detect_hardcoded_returns fs parse impl_file tvs =
     (case read_text fs impl_file of
        Inl e \<Rightarrow> Inl e
      | Inr content \<Rightarrow>
          (case ast_parse parse content of
             Inl e \<Rightarrow> Inl e
           | Inr tree \<Rightarrow>
               collect (concat (map (hc_visit (split_nl content) impl_file tvs) tree))))"

subsection \<open>\<^verbatim>\<open>detect_lookup_tables\<close>\<close>

definition key_matches :: "test_values \<Rightarrow> expr option list \<Rightarrow> nat" where
  "key_matches tvs ks =
     length (filter (\<lambda>k. case k of None \<Rightarrow> False | Some e \<Rightarrow> unparse e \<in> inputs tvs) ks)"

definition visit_Dict ::
  "string list \<Rightarrow> string \<Rightarrow> test_values \<Rightarrow> int \<Rightarrow> expr option list
   \<Rightarrow> (error + CheatingPattern) list" where
  "visit_Dict lines impl_file tvs lno ks =
     (if key_matches tvs ks \<ge> 2
      then [case index_list lines (lno - 1) of
              Inl e \<Rightarrow> Inl e
            | Inr l \<Rightarrow>
                Inr \<lparr>pattern_type = ''lookup_table'',
                     description =
                       ''Dictionary with '' @ str_nat (key_matches tvs ks)
                         @ '' keys matching test inputs'',
                     file = impl_file,
                     line = lno,
                     code_snippet = take 80 (strip l),
                     severity = ''high''\<rparr>]
      else [])"

fun lt_expr ::
  "string list \<Rightarrow> string \<Rightarrow> test_values \<Rightarrow> expr \<Rightarrow> (error + CheatingPattern) list" where
  "lt_expr lines impl_file tvs (Constant c) = []"
| "lt_expr lines impl_file tvs (Name n) = []"
| "lt_expr lines impl_file tvs (Attribute v a) = lt_expr lines impl_file tvs v"
| "lt_expr lines impl_file tvs (Compare l ops cs) =
     lt_expr lines impl_file tvs l @ concat (map (lt_expr lines impl_file tvs) cs)"
| "lt_expr lines impl_file tvs (Call f args) =
     lt_expr lines impl_file tvs f @ concat (map (lt_expr lines impl_file tvs) args)"
| "lt_expr lines impl_file tvs (Tuple es) = concat (map (lt_expr lines impl_file tvs) es)"
| "lt_expr lines impl_file tvs (Dict lno ks vs) =
     visit_Dict lines impl_file tvs lno ks
       @ concat (map (\<lambda>k. case k of None \<Rightarrow> [] | Some e \<Rightarrow> lt_expr lines impl_file tvs e) ks)
       @ concat (map (lt_expr lines impl_file tvs) vs)"

fun lt_stmt ::
  "string list \<Rightarrow> string \<Rightarrow> test_values \<Rightarrow> stmt \<Rightarrow> (error + CheatingPattern) list" where
  "lt_stmt lines impl_file tvs (IfStmt lno t b e) =
     lt_expr lines impl_file tvs t
       @ concat (map (lt_stmt lines impl_file tvs) b)
       @ concat (map (lt_stmt lines impl_file tvs) e)"
| "lt_stmt lines impl_file tvs (Return v) =
     (case v of None \<Rightarrow> [] | Some e \<Rightarrow> lt_expr lines impl_file tvs e)"
| "lt_stmt lines impl_file tvs (FunctionDef nm lno end_lno b) =
     concat (map (lt_stmt lines impl_file tvs) b)"
| "lt_stmt lines impl_file tvs (AsyncFunctionDef nm lno end_lno b) =
     concat (map (lt_stmt lines impl_file tvs) b)"
| "lt_stmt lines impl_file tvs (Assign ts v) =
     concat (map (lt_expr lines impl_file tvs) ts) @ lt_expr lines impl_file tvs v"
| "lt_stmt lines impl_file tvs (Expr e) = lt_expr lines impl_file tvs e"
| "lt_stmt lines impl_file tvs (Assert t msg) =
     lt_expr lines impl_file tvs t
       @ (case msg of None \<Rightarrow> [] | Some e \<Rightarrow> lt_expr lines impl_file tvs e)"
| "lt_stmt lines impl_file tvs Pass = []"

definition detect_lookup_tables ::
  "files \<Rightarrow> parser \<Rightarrow> string \<Rightarrow> test_values \<Rightarrow> error + CheatingPattern list" where
  "detect_lookup_tables fs parse impl_file tvs =
     (case read_text fs impl_file of
        Inl e \<Rightarrow> Inl e
      | Inr content \<Rightarrow>
          (case ast_parse parse content of
             Inl e \<Rightarrow> Inl e
           | Inr tree \<Rightarrow>
               collect (concat (map (lt_stmt (split_nl content) impl_file tvs) tree))))"

subsection \<open>\<^verbatim>\<open>detect_test_environment_checks\<close>\<close>

definition quotes :: cls where
  "quotes = OneOf [squote, dquote]"

text \<open>The table of patterns, searched with \<^verbatim>\<open>re.IGNORECASE\<close>.\<close>

definition test_detection_patterns :: "(atom list \<times> string) list" where
  "test_detection_patterns =
     [([ILit ''pytest'', Star Dot, ILit ''in'', Star Dot, ILit ''sys.modules''],
       ''pytest module detection''),
      ([ILit ''unittest'', Star Dot, ILit ''in'', Star Dot, ILit ''sys.modules''],
       ''unittest module detection''),
      ([ILit ''__name__'', Star Dot, ILit ''=='', Star Dot, One quotes, ILit ''__main__'',
        One quotes, Star Dot, ILit ''test''],
       ''main check with test''),
      ([ILit ''os.environ.get('', One quotes, ILit ''TEST''],
       ''TEST environment variable''),
      ([ILit ''os.environ.get('', One quotes, ILit ''CI'', One quotes],
       ''CI environment variable''),
      ([ILit ''TESTING'', Star Dot, ILit ''='', Star Dot, ILit ''True''],
       ''TESTING flag'')]"

text \<open>The inner loop over the table, for line \<open>i\<close> with text \<open>l\<close>.\<close>

fun te_line ::
  "string \<Rightarrow> int \<Rightarrow> string \<Rightarrow> (atom list \<times> string) list \<Rightarrow> CheatingPattern list" where
  "te_line impl_file i l [] = []"
| "te_line impl_file i l ((pattern, descr) # ps) =
     (if re_search pattern l
      then [\<lparr>pattern_type = ''test_detection'',
             description = descr,
             file = impl_file,
             line = i,
             code_snippet = strip l,
             severity = ''high''\<rparr>]
      else [])
       @ te_line impl_file i l ps"

text \<open>The outer loop over \<^verbatim>\<open>enumerate(lines, 1)\<close>.\<close>

fun te_lines :: "string \<Rightarrow> int \<Rightarrow> string list \<Rightarrow> CheatingPattern list" where
  "te_lines impl_file i [] = []"
| "te_lines impl_file i (l # ls) =
     te_line impl_file i l test_detection_patterns @ te_lines impl_file (i + 1) ls"

definition detect_test_environment_checks ::
  "files \<Rightarrow> string \<Rightarrow> error + CheatingPattern list" where
  "detect_test_environment_checks fs impl_file =
     (case read_text fs impl_file of
        Inl e \<Rightarrow> Inl e
      | Inr content \<Rightarrow> Inr (te_lines impl_file 1 (split_nl content)))"

subsection \<open>\<^verbatim>\<open>detect_excessive_conditionals\<close>\<close>

text \<open>The number of \<^verbatim>\<open>ast.If\<close> nodes that \<^verbatim>\<open>ast.walk\<close> meets from a statement on.\<close>

fun count_if :: "stmt \<Rightarrow> nat" where
  "count_if (IfStmt lno t b e) = 1 + sum_list (map count_if b) + sum_list (map count_if e)"
| "count_if (FunctionDef nm lno end_lno b) = sum_list (map count_if b)"
| "count_if (AsyncFunctionDef nm lno end_lno b) = sum_list (map count_if b)"
| "count_if st = 0"

text \<open>
  \<^verbatim>\<open>line_count / 3\<close> is Python's true division; the comparison with the exact quotient
  has the same result as the comparison with the nearest floating-point number.
\<close>

definition visit_FunctionDef ::
  "string \<Rightarrow> string \<Rightarrow> int \<Rightarrow> int \<Rightarrow> stmt list \<Rightarrow> CheatingPattern list" where
  "visit_FunctionDef impl_file nm lno end_lno body =
     (let if_count = sum_list (map count_if body);
          line_count = end_lno - lno
      in if if_count > 5 \<and> real if_count > real_of_int line_count / 3
         then [\<lparr>pattern_type = ''excessive_conditionals'',
                description =
                  ''Function '' @ [squote] @ nm @ [squote] @ '' has '' @ str_nat if_count
                    @ '' conditionals in '' @ str_int line_count @ '' lines'',
                file = impl_file,
                line = lno,
                code_snippet = ''def '' @ nm @ ''(...):'',
                severity = ''medium''\<rparr>]
         else [])"

fun ec_visit :: "string \<Rightarrow> stmt \<Rightarrow> CheatingPattern list" where
  "ec_visit impl_file (FunctionDef nm lno end_lno b) =
     visit_FunctionDef impl_file nm lno end_lno b @ concat (map (ec_visit impl_file) b)"
| "ec_visit impl_file (AsyncFunctionDef nm lno end_lno b) =
     concat (map (ec_visit impl_file) b)"
| "ec_visit impl_file (IfStmt lno t b e) =
     concat (map (ec_visit impl_file) b) @ concat (map (ec_visit impl_file) e)"
| "ec_visit impl_file st = []"

definition detect_excessive_conditionals ::
  "files \<Rightarrow> parser \<Rightarrow> string \<Rightarrow> error + CheatingPattern list" where
  "detect_excessive_conditionals fs parse impl_file =
     (case read_text fs impl_file of
        Inl e \<Rightarrow> Inl e
      | Inr content \<Rightarrow>
          (case ast_parse parse content of
             Inl e \<Rightarrow> Inl e
           | Inr tree \<Rightarrow> Inr (concat (map (ec_visit impl_file) tree))))"

subsection \<open>\<^verbatim>\<open>detect_cheating\<close> and \<^verbatim>\<open>main\<close>\<close>

definition detect_cheating ::
  "files \<Rightarrow> parser \<Rightarrow> string \<Rightarrow> string \<Rightarrow> error + CheatingPattern list" where
  "detect_cheating fs parse impl_file test_file =
     (case extract_test_values fs parse test_file of
        Inl e \<Rightarrow> Inl e
      | Inr tvs \<Rightarrow>
     (case detect_hardcoded_returns fs parse impl_file tvs of
        Inl e \<Rightarrow> Inl e
      | Inr p1 \<Rightarrow>
     (case detect_lookup_tables fs parse impl_file tvs of
        Inl e \<Rightarrow> Inl e
      | Inr p2 \<Rightarrow>
     (case detect_test_environment_checks fs impl_file of
        Inl e \<Rightarrow> Inl e
      | Inr p3 \<Rightarrow>
     (case detect_excessive_conditionals fs parse impl_file of
        Inl e \<Rightarrow> Inl e
      | Inr p4 \<Rightarrow> Inr (p1 @ p2 @ p3 @ p4))))))"

record json_report =
  clean :: bool
  patterns :: "CheatingPattern list"
  high_severity :: int
  medium_severity :: int
  low_severity :: int

text \<open>
  What a run of \<^verbatim>\<open>main\<close> prints: the usage text, the traceback of an exception that
  nothing catches, the JSON document, the \<^verbatim>\<open>CLEAN\<close> banner, or the listing with the
  total, the findings of high severity and those of medium severity.
\<close>

datatype printed =
    Usage
  | Traceback error
  | Json json_report
  | Clean
  | Detected int "CheatingPattern list" "CheatingPattern list"

definition count_severity :: "string \<Rightarrow> CheatingPattern list \<Rightarrow> int" where
  "count_severity sev ps = int (length (filter (\<lambda>p. severity p = sev) ps))"

text \<open>
  \<open>argv\<close> is \<^verbatim>\<open>sys.argv\<close>, the program name first. The result is what is printed and
  the exit status of the process: 1 after \<^verbatim>\<open>sys.exit(1)\<close> and after an exception that
  nothing catches, 0 when \<^verbatim>\<open>main\<close> returns.
\<close>

definition main :: "files \<Rightarrow> parser \<Rightarrow> string list \<Rightarrow> printed \<times> int" where
  "main fs parse argv =
     (if length argv < 3 then (Usage, 1)
      else
        (let impl_file = argv ! 1;
             test_file = argv ! 2;
             json_output = (''--json'' \<in> set argv)
         in case detect_cheating fs parse impl_file test_file of
              Inl e \<Rightarrow> (Traceback e, 1)
            | Inr ps \<Rightarrow>
                if json_output
                then (Json \<lparr>clean = (length ps = 0),
                            patterns = ps,
                            high_severity = count_severity ''high'' ps,
                            medium_severity = count_severity ''medium'' ps,
                            low_severity = count_severity ''low'' ps\<rparr>, 0)
                else if ps = [] then (Clean, 0)
                else (Detected (int (length ps))
                        (filter (\<lambda>p. severity p = ''high'') ps)
                        (filter (\<lambda>p. severity p = ''medium'') ps), 1)))"

section \<open>The nodes of a tree\<close>

text \<open>
  The conditionals, the function definitions and the dictionary displays of a tree, in the
  order in which a visitor meets them: a conditional with its line, guard and then-branch,
  a function definition with its name, first line, last line and body, a dictionary
  display with its line and keys.
\<close>

fun if_nodes :: "stmt \<Rightarrow> (int \<times> expr \<times> stmt list) list" where
  "if_nodes (IfStmt lno t b e) =
     (lno, t, b) # concat (map if_nodes b) @ concat (map if_nodes e)"
| "if_nodes (FunctionDef nm lno end_lno b) = concat (map if_nodes b)"
| "if_nodes (AsyncFunctionDef nm lno end_lno b) = concat (map if_nodes b)"
| "if_nodes st = []"

fun def_nodes :: "stmt \<Rightarrow> (string \<times> int \<times> int \<times> stmt list) list" where
  "def_nodes (FunctionDef nm lno end_lno b) =
     (nm, lno, end_lno, b) # concat (map def_nodes b)"
| "def_nodes (AsyncFunctionDef nm lno end_lno b) = concat (map def_nodes b)"
| "def_nodes (IfStmt lno t b e) = concat (map def_nodes b) @ concat (map def_nodes e)"
| "def_nodes st = []"

fun dict_nodes_expr :: "expr \<Rightarrow> (int \<times> expr option list) list" where
  "dict_nodes_expr (Constant c) = []"
| "dict_nodes_expr (Name n) = []"
| "dict_nodes_expr (Attribute v a) = dict_nodes_expr v"
| "dict_nodes_expr (Compare l ops cs) = dict_nodes_expr l @ concat (map dict_nodes_expr cs)"
| "dict_nodes_expr (Call f args) = dict_nodes_expr f @ concat (map dict_nodes_expr args)"
| "dict_nodes_expr (Tuple es) = concat (map dict_nodes_expr es)"
| "dict_nodes_expr (Dict lno ks vs) =
     (lno, ks)
       # concat (map (\<lambda>k. case k of None \<Rightarrow> [] | Some e \<Rightarrow> dict_nodes_expr e) ks)
       @ concat (map dict_nodes_expr vs)"

fun dict_nodes :: "stmt \<Rightarrow> (int \<times> expr option list) list" where
  "dict_nodes (IfStmt lno t b e) =
     dict_nodes_expr t @ concat (map dict_nodes b) @ concat (map dict_nodes e)"
| "dict_nodes (Return v) = (case v of None \<Rightarrow> [] | Some e \<Rightarrow> dict_nodes_expr e)"
| "dict_nodes (FunctionDef nm lno end_lno b) = concat (map dict_nodes b)"
| "dict_nodes (AsyncFunctionDef nm lno end_lno b) = concat (map dict_nodes b)"
| "dict_nodes (Assign ts v) = concat (map dict_nodes_expr ts) @ dict_nodes_expr v"
| "dict_nodes (Expr e) = dict_nodes_expr e"
| "dict_nodes (Assert t msg) =
     dict_nodes_expr t @ (case msg of None \<Rightarrow> [] | Some e \<Rightarrow> dict_nodes_expr e)"
| "dict_nodes Pass = []"

section \<open>Example files\<close>

text \<open>
  \<^verbatim>\<open>square.py\<close> is the line \<^verbatim>\<open>if x == 5: return 25\<close>, which branches on the
  test input 5 and returns the expected 25; \<^verbatim>\<open>square24.py\<close> returns 24 there; \<^verbatim>\<open>table.py\<close> holds a dictionary keyed by the
  test inputs on an indented line; \<^verbatim>\<open>env.py\<close> looks for two test frameworks on one
  line. \<^verbatim>\<open>test_square.py\<close> asserts \<^verbatim>\<open>f(5) == 25\<close> and \<^verbatim>\<open>test_table.py\<close> asserts
  that and \<^verbatim>\<open>f(6) == 36\<close>.
\<close>

definition square_py :: string where
  "square_py = ''if x == 5: return 25''"

definition square24_py :: string where
  "square24_py = ''if x == 5: return 24''"

definition table_py :: string where
  "table_py = join [newline] [''def f(x):'', ''    table = {5: 25, 6: 36}'', ''    return table'']"

definition env_py :: string where
  "env_py = join [newline]
     [''def f(x):'',
      ''    if 'pytest' in sys.modules or 'unittest' in sys.modules:'',
      ''        TESTING = True'']"

definition test_square_py :: string where
  "test_square_py = ''assert f(5) == 25''"

definition test_table_py :: string where
  "test_table_py = join [newline] [''assert f(5) == 25'', ''assert f(6) == 36'']"

definition square_tree :: "int \<Rightarrow> stmt list" where
  "square_tree r =
     [IfStmt 1 (Compare (Name ''x'') [Eq] [Constant (CInt 5)])
        [Return (Some (Constant (CInt r)))] []]"

definition table_tree :: "stmt list" where
  "table_tree =
     [FunctionDef ''f'' 1 3
        [Assign [Name ''table'']
           (Dict 2 [Some (Constant (CInt 5)), Some (Constant (CInt 6))]
                   [Constant (CInt 25), Constant (CInt 36)]),
         Return (Some (Name ''table''))]]"

text \<open>
  \<^verbatim>\<open>branchy.py\<close> is a function of nine lines with six conditionals, one on each of the
  lines 2 to 7.
\<close>

definition branchy_py :: string where
  "branchy_py = join [newline]
     [''def f(x):'',
      ''    if x == 1: return 10'',
      ''    if x == 2: return 20'',
      ''    if x == 3: return 30'',
      ''    if x == 4: return 40'',
      ''    if x == 5: return 50'',
      ''    if x == 6: return 60'',
      ''    y = g(x)'',
      ''    return y'']"

definition branch :: "int \<Rightarrow> stmt" where
  "branch i =
     IfStmt (i + 1) (Compare (Name ''x'') [Eq] [Constant (CInt i)])
       [Return (Some (Constant (CInt (10 * i))))] []"

definition branchy_tree :: "stmt list" where
  "branchy_tree =
     [FunctionDef ''f'' 1 9
        [branch 1, branch 2, branch 3, branch 4, branch 5, branch 6,
         Assign [Name ''y''] (Call (Name ''g'') [Name ''x'']),
         Return (Some (Name ''y''))]]"

text \<open>
  \<^verbatim>\<open>long.py\<close> is a function of eighteen lines with the same six conditionals;
  \<^verbatim>\<open>async.py\<close> is \<^verbatim>\<open>branchy.py\<close> with \<^verbatim>\<open>async def\<close>; \<^verbatim>\<open>broken.py\<close> is not
  Python, and no file is called \<^verbatim>\<open>missing.py\<close>.
\<close>

definition long_py :: string where
  "long_py = join [newline]
     ([''def f(x):'',
       ''    if x == 1: return 10'',
       ''    if x == 2: return 20'',
       ''    if x == 3: return 30'',
       ''    if x == 4: return 40'',
       ''    if x == 5: return 50'',
       ''    if x == 6: return 60'']
      @ replicate 10 ''    y = g(x)''
      @ [''    return y''])"

definition long_tree :: "stmt list" where
  "long_tree =
     [FunctionDef ''f'' 1 18
        ([branch 1, branch 2, branch 3, branch 4, branch 5, branch 6]
         @ replicate 10 (Assign [Name ''y''] (Call (Name ''g'') [Name ''x'']))
         @ [Return (Some (Name ''y''))])]"

definition async_py :: string where
  "async_py = join [newline]
     [''async def f(x):'',
      ''    if x == 1: return 10'',
      ''    if x == 2: return 20'',
      ''    if x == 3: return 30'',
      ''    if x == 4: return 40'',
      ''    if x == 5: return 50'',
      ''    if x == 6: return 60'',
      ''    y = g(x)'',
      ''    return y'']"

definition async_tree :: "stmt list" where
  "async_tree =
     [AsyncFunctionDef ''f'' 1 9
        [branch 1, branch 2, branch 3, branch 4, branch 5, branch 6,
         Assign [Name ''y''] (Call (Name ''g'') [Name ''x'']),
         Return (Some (Name ''y''))]]"

definition broken_py :: string where
  "broken_py = ''def f(:''"

definition assert_eq :: "int \<Rightarrow> int \<Rightarrow> stmt" where
  "assert_eq a r =
     Assert (Compare (Call (Name ''f'') [Constant (CInt a)]) [Eq] [Constant (CInt r)]) None"

definition example_files :: files where
  "example_files =
     map_of [(''square.py'', square_py), (''square24.py'', square24_py),
             (''table.py'', table_py), (''env.py'', env_py), (''branchy.py'', branchy_py),
             (''test_square.py'', test_square_py), (''test_table.py'', test_table_py),
             (''long.py'', long_py), (''async.py'', async_py), (''broken.py'', broken_py)]"

definition example_parser :: parser where
  "example_parser =
     map_of [(square_py, square_tree 25), (square24_py, square_tree 24),
             (table_py, table_tree), (branchy_py, branchy_tree),
             (test_square_py, [assert_eq 5 25]),
             (test_table_py, [assert_eq 5 25, assert_eq 6 36]),
             (long_py, long_tree), (async_py, async_tree)]"

text \<open>
  Three runs of pytest in which \<^verbatim>\<open>t.py::test_b\<close> is missing from the second, and a
  session whose second run cannot start pytest.
\<close>

definition three_runs :: "nat \<Rightarrow> proc_result" where
  "three_runs i =
     (if i = 1 then Completed 1 ''t.py::test_a PASSED'' []
      else Completed 0 (join [newline] [''t.py::test_a PASSED'', ''t.py::test_b PASSED'']) [])"

definition second_run_not_started :: "nat \<Rightarrow> proc_result" where
  "second_run_not_started i =
     (if i = 1 then NotStarted else Completed 0 ''t.py::test_a PASSED'' [])"

definition no_jest :: "proc_result \<Rightarrow> error + results" where
  "no_jest p = Inr []"

text \<open>
  A session whose second run writes bytes that are not text, and three runs of Jest that
  exit with status 1: the first and the third print a report with one failed test, the
  second prints no JSON.
\<close>

definition second_run_undecodable :: "nat \<Rightarrow> proc_result" where
  "second_run_undecodable i =
     (if i = 1 then Undecodable else Completed 0 ''t.py::test_a PASSED'' [])"

definition jest_stdout :: string where
  \<open>jest_stdout =
     ''{"testResults": [{"name": "a.test.js", "assertionResults": '' @
     ''[{"fullName": "adds", "status": "failed"}]}]}''\<close>

definition jest_data :: json where
  "jest_data =
     JDict [(''testResults'',
             JList [JDict [(''name'', JStr ''a.test.js''),
                           (''assertionResults'',
                            JList [JDict [(''fullName'', JStr ''adds''),
                                          (''status'', JStr ''failed'')]])]])]"

definition jest_loads :: "string \<Rightarrow> json option" where
  "jest_loads = map_of [(jest_stdout, jest_data)]"

definition jest_runs :: "nat \<Rightarrow> proc_result" where
  "jest_runs i =
     (if i = 1 then Completed 1 ''npm ERR! missing script'' []
      else Completed 1 jest_stdout [])"

section \<open>Properties of the flaky detector\<close>

lemma analyse_eq:
  "analyse rs ns (tr, fl) =
     (tr @ map (test_result rs) ns, fl @ filter is_flaky (map (test_result rs) ns))"
  by (induction ns arbitrary: tr fl) (simp_all add: test_result_def Let_def)


lemma flaky_report_eq:
  "flaky_report rs k fw =
     (let trs = map (test_result rs) (sorted_list_of_set (all_test_names rs))
      in \<lparr>total_tests = int (length trs),
          flaky_tests = filter is_flaky trs,
          stable_tests = int (length trs) - int (length (filter is_flaky trs)),
          runs = k,
          framework = fw\<rparr>)"
  by (simp add: flaky_report_def analyse_eq Let_def)

lemma sorted_names_code:
  "sorted_list_of_set (all_test_names rs) = sort (remdups (concat (map (map fst) rs)))"
proof -
  have "all_test_names rs = set (concat (map (map fst) rs))"
    by (auto simp: all_test_names_def)
  then show ?thesis by (simp only: sorted_list_of_set_sort_remdups)
qed


text \<open>
  Claim C10. Every report that \<^const>\<open>detect_flaky_tests\<close> returns has
  \<open>total_tests = stable_tests + length flaky_tests\<close>, and it is stable exactly when its
  list of flaky tests is empty.
\<close>

theorem flaky_report_invariant:
  "detect_flaky_tests jest detected env k fw_opt = Inr rep \<Longrightarrow>
     total_tests rep = stable_tests rep + int (length (flaky_tests rep))
   \<and> (is_stable rep \<longleftrightarrow> flaky_tests rep = [])"
  by (auto simp: detect_flaky_tests_def flaky_report_eq is_stable_def Let_def
           split: sum.splits)

lemma three_runs_report:
  "detect_flaky_tests no_jest ''pytest'' three_runs 3 None =
     Inr \<lparr>total_tests = 2,
          flaky_tests = [\<lparr>name = ''t.py::test_b'', outcomes = [''PASS'', ''MISSING'', ''PASS''],
                          is_flaky = True\<rparr>],
          stable_tests = 1, runs = 3, framework = ''pytest''\<rparr>"
  unfolding detect_flaky_tests_def flaky_report_eq sorted_names_code by code_simp



text \<open>
  Claim C10, witness: the theorem at the three pytest runs of the examples.
\<close>

theorem flaky_report_invariant_witness:
  "detect_flaky_tests no_jest ''pytest'' three_runs 3 None =
     Inr \<lparr>total_tests = 2,
          flaky_tests = [\<lparr>name = ''t.py::test_b'', outcomes = [''PASS'', ''MISSING'', ''PASS''],
                          is_flaky = True\<rparr>],
          stable_tests = 1, runs = 3, framework = ''pytest''\<rparr>
   \<and> (2::int) = 1 + int (length [\<lparr>name = ''t.py::test_b'',
                                     outcomes = [''PASS'', ''MISSING'', ''PASS''],
                                     is_flaky = True\<rparr>])"
  using flaky_report_invariant [OF three_runs_report] three_runs_report by simp

text \<open>
  Claim C3. The pytest adapter stores \<^verbatim>\<open>FAILED\<close> for a failed test: the two
  replacements turn \<^verbatim>\<open>PASSED\<close> and \<^verbatim>\<open>SKIPPED\<close> into \<^verbatim>\<open>PASS\<close> and
  \<^verbatim>\<open>SKIP\<close> and leave \<^verbatim>\<open>FAILED\<close> as it is, which is none of the outcomes
  \<^verbatim>\<open>PASS\<close>, \<^verbatim>\<open>FAIL\<close>, \<^verbatim>\<open>ERROR\<close>, \<^verbatim>\<open>SKIP\<close>. The cargo adapter stores
  \<^verbatim>\<open>FAIL\<close> for the same token.
\<close>

theorem pytest_failed_token:
  "run_pytest (Completed 1 ''t.py::test_a FAILED'' []) = Inr [(''t.py::test_a'', ''FAILED'')]
   \<and> ''FAILED'' \<notin> TestOutcome
   \<and> run_cargo (Completed 101 ''test a::b ... FAILED'' []) = Inr [(''a::b'', ''FAIL'')]"
proof (intro conjI)
  show "run_pytest (Completed 1 ''t.py::test_a FAILED'' []) = Inr [(''t.py::test_a'', ''FAILED'')]"
    by code_simp
  show "''FAILED'' \<notin> TestOutcome" by (simp add: TestOutcome_def)
  show "run_cargo (Completed 101 ''test a::b ... FAILED'' []) = Inr [(''a::b'', ''FAIL'')]"
    by code_simp
qed

lemma cargo_outcome_enum: "cargo_outcome t \<in> TestOutcome"
  by (simp add: cargo_outcome_def TestOutcome_def)

lemma run_tests_known:
  assumes "fw = ''pytest'' \<or> fw = ''jest'' \<or> fw = ''cargo''"
  shows "run_tests (run_jest loads) fw NotStarted = Inl OSError"
    and "run_tests (run_jest loads) fw Undecodable = Inl UnicodeDecodeError"
    and "run_tests (run_jest loads) fw (Completed rc out err)
           = run_tests (run_jest loads) fw (Completed 0 out err)"
    and "fw \<noteq> ''jest'' \<longrightarrow> (\<exists>res. run_tests (run_jest loads) fw (Completed rc out err) = Inr res)"
    and "fw = ''jest'' \<and> loads out = None \<longrightarrow>
           run_tests (run_jest loads) fw (Completed rc out err) = Inr []"
  using assms by (auto simp: run_tests_def)

lemma run_loop_ok:
  "\<forall>p \<in> set ps. \<exists>r. run_tests jest fw p = Inr r \<Longrightarrow>
   \<exists>rs. run_loop jest fw ps acc = Inr (acc @ rs) \<and> length rs = length ps
      \<and> (\<forall>i < length ps. run_tests jest fw (ps ! i) = Inr (rs ! i))"
proof (induction ps arbitrary: acc)
  case Nil
  then show ?case by simp
next
  case (Cons p ps)
  then obtain r where r: "run_tests jest fw p = Inr r" by auto
  from Cons obtain rs where rs: "run_loop jest fw ps (acc @ [r]) = Inr ((acc @ [r]) @ rs)"
      "length rs = length ps" "\<forall>i < length ps. run_tests jest fw (ps ! i) = Inr (rs ! i)"
    by (metis list.set_intros(2))
  show ?case
  proof (intro exI [of _ "r # rs"] conjI allI impI)
    show "run_loop jest fw (p # ps) acc = Inr (acc @ r # rs)" using r rs(1) by simp
    show "length (r # rs) = length (p # ps)" using rs(2) by simp
    fix i assume "i < length (p # ps)"
    then show "run_tests jest fw ((p # ps) ! i) = Inr ((r # rs) ! i)"
      using r rs(3) by (cases i) simp_all
  qed
qed

lemma run_loop_raises:
  "\<exists>p \<in> set ps. \<exists>e. run_tests jest fw p = Inl e \<Longrightarrow>
   \<exists>e. run_loop jest fw ps acc = Inl e"
proof (induction ps arbitrary: acc)
  case Nil
  then show ?case by simp
next
  case (Cons p ps)
  show ?case
  proof (cases "run_tests jest fw p")
    case (Inl e)
    then show ?thesis by simp
  next
    case (Inr r)
    with Cons.prems have "\<exists>p \<in> set ps. \<exists>e. run_tests jest fw p = Inl e" by auto
    from Cons.IH [OF this, of "acc @ [r]"] Inr show ?thesis by simp
  qed
qed

text \<open>
  Claim C4, as the code has it. With pytest, Jest or cargo, the exit status of a child
  process is never read: a run gives what it gives for status 0. With pytest and cargo
  that is always a result map, and with Jest it is the empty map when the output is not a
  JSON document. A session in which every run gives a map returns a report, and a test
  that a run's map does not have is \<^verbatim>\<open>MISSING\<close> at that run. A child process that cannot
  be started raises \<^verbatim>\<open>OSError\<close>, one whose output is not text raises
  \<^verbatim>\<open>UnicodeDecodeError\<close>, and a session with such a run ends with an exception.
\<close>

theorem nonzero_exit_is_not_an_error:
  "(fw = ''pytest'' \<or> fw = ''jest'' \<or> fw = ''cargo'') \<longrightarrow>
     (run_tests (run_jest loads) fw (Completed rc out err)
        = run_tests (run_jest loads) fw (Completed 0 out err)
      \<and> (fw \<noteq> ''jest'' \<longrightarrow>
            (\<exists>res. run_tests (run_jest loads) fw (Completed rc out err) = Inr res))
      \<and> (fw = ''jest'' \<and> loads out = None \<longrightarrow>
            run_tests (run_jest loads) fw (Completed rc out err) = Inr []))
   \<and> run_tests (run_jest loads) fw NotStarted = Inl OSError
   \<and> run_tests (run_jest loads) fw Undecodable = Inl UnicodeDecodeError
   \<and> ((\<forall>i < nat k. \<exists>res. run_tests (run_jest loads) fw (env i) = Inr res) \<longrightarrow>
        (\<exists>all_results.
            length all_results = nat k
          \<and> detect_flaky_tests (run_jest loads) detected env k (Some fw)
              = Inr (flaky_report all_results k fw)
          \<and> (\<forall>i < nat k. run_tests (run_jest loads) fw (env i) = Inr (all_results ! i)
                \<and> (\<forall>t. t \<notin> fst ` set (all_results ! i) \<longrightarrow>
                       get_outcomes all_results t ! i = ''MISSING''))))
   \<and> ((\<exists>i < nat k. env i = NotStarted \<or> env i = Undecodable) \<longrightarrow>
        (\<exists>e. detect_flaky_tests (run_jest loads) detected env k (Some fw) = Inl e))"
proof (rule impI)
  let ?J = "run_jest loads"
  let ?ps = "map env [0..<nat k]"
  assume fw: "fw = ''pytest'' \<or> fw = ''jest'' \<or> fw = ''cargo''"
  note known = run_tests_known [OF fw, of loads]
  have run: "run_tests ?J fw (Completed rc out err) = run_tests ?J fw (Completed 0 out err)
      \<and> (fw \<noteq> ''jest'' \<longrightarrow> (\<exists>res. run_tests ?J fw (Completed rc out err) = Inr res))
      \<and> (fw = ''jest'' \<and> loads out = None \<longrightarrow>
            run_tests ?J fw (Completed rc out err) = Inr [])"
    using known(3) [of rc out err] known(4) [of rc out err] known(5) [of out rc err] by blast
  have ok: "\<exists>all_results.
            length all_results = nat k
          \<and> detect_flaky_tests ?J detected env k (Some fw) = Inr (flaky_report all_results k fw)
          \<and> (\<forall>i < nat k. run_tests ?J fw (env i) = Inr (all_results ! i)
                \<and> (\<forall>t. t \<notin> fst ` set (all_results ! i) \<longrightarrow>
                       get_outcomes all_results t ! i = ''MISSING''))"
    if all: "\<forall>i < nat k. \<exists>res. run_tests ?J fw (env i) = Inr res"
  proof -
    from all have "\<forall>p \<in> set ?ps. \<exists>r. run_tests ?J fw p = Inr r" by auto
    from run_loop_ok [OF this, of "[]"] obtain rs where rs:
      "run_loop ?J fw ?ps [] = Inr rs" "length rs = nat k"
      "\<forall>i < nat k. run_tests ?J fw (env i) = Inr (rs ! i)"
      by auto
    show ?thesis
    proof (intro exI [of _ rs] conjI allI impI)
      show "length rs = nat k" by (rule rs(2))
      show "detect_flaky_tests ?J detected env k (Some fw) = Inr (flaky_report rs k fw)"
        using rs(1) by (simp add: detect_flaky_tests_def)
    next
      fix i assume i: "i < nat k"
      show "run_tests ?J fw (env i) = Inr (rs ! i)" using rs(3) i by simp
    next
      fix i t assume i: "i < nat k" and t: "t \<notin> fst ` set (rs ! i)"
      from t have "map_of (rs ! i) t = None" by (simp add: map_of_eq_None_iff)
      then show "get_outcomes rs t ! i = ''MISSING''"
        using i rs(2) by (simp add: get_outcomes_def)
    qed
  qed
  have bad: "\<exists>e. detect_flaky_tests ?J detected env k (Some fw) = Inl e"
    if "\<exists>i < nat k. env i = NotStarted \<or> env i = Undecodable"
  proof -
    from that obtain i where i: "i < nat k" "env i = NotStarted \<or> env i = Undecodable"
      by blast
    from i(1) have "env i \<in> set ?ps" by simp
    moreover from i(2) known(1,2) have "\<exists>e. run_tests ?J fw (env i) = Inl e" by auto
    ultimately have "\<exists>p \<in> set ?ps. \<exists>e. run_tests ?J fw p = Inl e" by blast
    from run_loop_raises [OF this, of "[]"] show ?thesis
      by (auto simp: detect_flaky_tests_def)
  qed
  from run known(1,2) ok bad
  show "(run_tests ?J fw (Completed rc out err) = run_tests ?J fw (Completed 0 out err)
      \<and> (fw \<noteq> ''jest'' \<longrightarrow> (\<exists>res. run_tests ?J fw (Completed rc out err) = Inr res))
      \<and> (fw = ''jest'' \<and> loads out = None \<longrightarrow>
            run_tests ?J fw (Completed rc out err) = Inr []))
   \<and> run_tests ?J fw NotStarted = Inl OSError
   \<and> run_tests ?J fw Undecodable = Inl UnicodeDecodeError
   \<and> ((\<forall>i < nat k. \<exists>res. run_tests ?J fw (env i) = Inr res) \<longrightarrow>
        (\<exists>all_results.
            length all_results = nat k
          \<and> detect_flaky_tests ?J detected env k (Some fw) = Inr (flaky_report all_results k fw)
          \<and> (\<forall>i < nat k. run_tests ?J fw (env i) = Inr (all_results ! i)
                \<and> (\<forall>t. t \<notin> fst ` set (all_results ! i) \<longrightarrow>
                       get_outcomes all_results t ! i = ''MISSING''))))
   \<and> ((\<exists>i < nat k. env i = NotStarted \<or> env i = Undecodable) \<longrightarrow>
        (\<exists>e. detect_flaky_tests ?J detected env k (Some fw) = Inl e))"
    by blast
qed

text \<open>
  Claim C4, counterexample. The claim as stated fails: when the second of three runs
  cannot start pytest, the session raises and returns no report.
\<close>

theorem launch_failure_aborts_session:
  "detect_flaky_tests no_jest ''pytest'' second_run_not_started 3 None = Inl OSError"
  unfolding detect_flaky_tests_def by code_simp

lemma jest_run_values:
  "run_tests (run_jest jest_loads) ''jest'' (jest_runs 0) = Inr [(''a.test.js::adds'', ''FAIL'')]"
  "run_tests (run_jest jest_loads) ''jest'' (jest_runs 1) = Inr []"
  "run_tests (run_jest jest_loads) ''jest'' (jest_runs 2) = Inr [(''a.test.js::adds'', ''FAIL'')]"
  by code_simp+

lemma jest_session:
  "detect_flaky_tests (run_jest jest_loads) ''pytest'' jest_runs 3 (Some ''jest'') =
     Inr \<lparr>total_tests = 1,
          flaky_tests = [\<lparr>name = ''a.test.js::adds'', outcomes = [''FAIL'', ''MISSING'', ''FAIL''],
                          is_flaky = True\<rparr>],
          stable_tests = 0, runs = 3, framework = ''jest''\<rparr>"
  unfolding detect_flaky_tests_def flaky_report_eq sorted_names_code by code_simp

text \<open>
  Claim C4, witness: the theorem at three runs of Jest that exit with status 1, the
  second without a JSON document, and at a session whose second run writes bytes that are
  not text.
\<close>

theorem nonzero_exit_is_not_an_error_witness:
  "run_tests (run_jest jest_loads) ''jest'' (jest_runs 0) = Inr [(''a.test.js::adds'', ''FAIL'')]
   \<and> run_tests (run_jest jest_loads) ''jest'' (jest_runs 1) = Inr []
   \<and> run_tests (run_jest jest_loads) ''jest'' (jest_runs 2) = Inr [(''a.test.js::adds'', ''FAIL'')]
   \<and> jest_loads ''npm ERR! missing script'' = None
   \<and> second_run_undecodable 1 = Undecodable
   \<and> (\<exists>all_results. length all_results = 3
        \<and> detect_flaky_tests (run_jest jest_loads) ''pytest'' jest_runs 3 (Some ''jest'')
            = Inr (flaky_report all_results 3 ''jest''))
   \<and> run_tests (run_jest jest_loads) ''jest'' (Completed 1 ''npm ERR! missing script'' []) = Inr []
   \<and> (\<exists>e. detect_flaky_tests (run_jest jest_loads) ''pytest'' second_run_undecodable 3
              (Some ''cargo'') = Inl e)
   \<and> detect_flaky_tests (run_jest jest_loads) ''pytest'' jest_runs 3 (Some ''jest'') =
       Inr \<lparr>total_tests = 1,
            flaky_tests = [\<lparr>name = ''a.test.js::adds'',
                            outcomes = [''FAIL'', ''MISSING'', ''FAIL''], is_flaky = True\<rparr>],
            stable_tests = 0, runs = 3, framework = ''jest''\<rparr>"
proof -
  have l: "jest_loads ''npm ERR! missing script'' = None" by code_simp
  have a: "\<forall>i < nat 3. \<exists>res. run_tests (run_jest jest_loads) ''jest'' (jest_runs i) = Inr res"
  proof (intro allI impI)
    fix i :: nat assume "i < nat 3"
    then have "i = 0 \<or> i = 1 \<or> i = 2" by auto
    then show "\<exists>res. run_tests (run_jest jest_loads) ''jest'' (jest_runs i) = Inr res"
      using jest_run_values by auto
  qed
  have u: "second_run_undecodable 1 = Undecodable" by (simp add: second_run_undecodable_def)
  then have b: "\<exists>i < nat 3. second_run_undecodable i = NotStarted
                  \<or> second_run_undecodable i = Undecodable"
    by (intro exI [of _ 1]) simp
  note t1 = nonzero_exit_is_not_an_error
      [where fw = "''jest''" and loads = jest_loads and k = 3 and env = jest_runs
         and detected = "''pytest''" and rc = 1 and out = "''npm ERR! missing script''"
         and err = "[]"]
  note t2 = nonzero_exit_is_not_an_error
      [where fw = "''cargo''" and loads = jest_loads and k = 3 and env = second_run_undecodable
         and detected = "''pytest''"]
  from t1 a have c1: "\<exists>all_results. length all_results = 3
        \<and> detect_flaky_tests (run_jest jest_loads) ''pytest'' jest_runs 3 (Some ''jest'')
            = Inr (flaky_report all_results 3 ''jest'')"
    by auto
  from t1 l have c2:
    "run_tests (run_jest jest_loads) ''jest'' (Completed 1 ''npm ERR! missing script'' []) = Inr []"
    by blast
  from t2 b have c3: "\<exists>e. detect_flaky_tests (run_jest jest_loads) ''pytest''
                          second_run_undecodable 3 (Some ''cargo'') = Inl e"
    by blast
  from jest_run_values l u c1 c2 c3 jest_session show ?thesis by blast
qed

section \<open>Properties of the cheating detector\<close>

lemma collect_Inr: "collect xs = Inr ps \<longleftrightarrow> xs = map Inr ps"
proof (induction xs arbitrary: ps)
  case Nil
  show ?case by auto
next
  case (Cons x xs)
  show ?case
  proof (cases x)
    case (Inl e)
    then show ?thesis by (cases ps) auto
  next
    case (Inr v)
    show ?thesis
    proof (cases "collect xs")
      case (Inl e)
      with Cons Inr show ?thesis by (cases ps) auto
    next
      case r: (Inr vs)
      with Cons Inr show ?thesis by (cases ps) auto
    qed
  qed
qed

lemma concat_map_concat:
  "concat (map f (concat xss)) = concat (map (\<lambda>xs. concat (map f xs)) xss)"
  by (induction xss) simp_all

lemma hc_visit_nodes:
  "hc_visit lines f tvs st =
     concat (map (\<lambda>(lno, t, b). visit_If lines f tvs lno t b) (if_nodes st))"
proof (induction st)
  case (IfStmt lno t b e)
  then show ?case
    by (simp add: concat_map_concat comp_def cong: map_cong)
next
  case (FunctionDef nm lno end_lno b)
  then show ?case by (simp add: concat_map_concat comp_def cong: map_cong)
next
  case (AsyncFunctionDef nm lno end_lno b)
  then show ?case by (simp add: concat_map_concat comp_def cong: map_cong)
qed simp_all

lemma lt_expr_nodes:
  "lt_expr lines f tvs e =
     concat (map (\<lambda>(lno, ks). visit_Dict lines f tvs lno ks) (dict_nodes_expr e))"
proof (induction e)
  case (Dict lno ks vs)
  have k: "(case k of None \<Rightarrow> [] | Some e \<Rightarrow> lt_expr lines f tvs e) =
        concat (map (\<lambda>(lno, ks). visit_Dict lines f tvs lno ks)
          (case k of None \<Rightarrow> [] | Some e \<Rightarrow> dict_nodes_expr e))"
    if "k \<in> set ks" for k
  proof (cases k)
    case None
    then show ?thesis by simp
  next
    case (Some e)
    with that have "e \<in> set_option k" "k \<in> set ks" by simp_all
    with Dict(1) [of k e] Some show ?thesis by simp
  qed
  show ?case
    using Dict(2) k by (simp add: concat_map_concat comp_def cong: map_cong)
qed (simp_all add: concat_map_concat comp_def cong: map_cong)

lemma lt_stmt_nodes:
  "lt_stmt lines f tvs st =
     concat (map (\<lambda>(lno, ks). visit_Dict lines f tvs lno ks) (dict_nodes st))"
proof (induction st)
  case (IfStmt lno t b e)
  then show ?case
    by (simp add: lt_expr_nodes concat_map_concat comp_def cong: map_cong)
next
  case (Return v)
  then show ?case by (cases v) (simp_all add: lt_expr_nodes)
next
  case (FunctionDef nm lno end_lno b)
  then show ?case by (simp add: concat_map_concat comp_def cong: map_cong)
next
  case (AsyncFunctionDef nm lno end_lno b)
  then show ?case by (simp add: concat_map_concat comp_def cong: map_cong)
next
  case (Assign ts v)
  then show ?case by (simp add: lt_expr_nodes concat_map_concat comp_def cong: map_cong)
next
  case (Expr e)
  then show ?case by (simp add: lt_expr_nodes)
next
  case (Assert t msg)
  then show ?case by (cases msg) (simp_all add: lt_expr_nodes)
next
  case Pass
  then show ?case by simp
qed

lemma ec_visit_nodes:
  "ec_visit f st =
     concat (map (\<lambda>(nm, lno, end_lno, b). visit_FunctionDef f nm lno end_lno b) (def_nodes st))"
proof (induction st)
  case (IfStmt lno t b e)
  then show ?case
    by (simp add: concat_map_concat comp_def cong: map_cong)
next
  case (FunctionDef nm lno end_lno b)
  then show ?case by (simp add: concat_map_concat comp_def cong: map_cong)
next
  case (AsyncFunctionDef nm lno end_lno b)
  then show ?case by (simp add: concat_map_concat comp_def cong: map_cong)
qed simp_all

lemma concat_Inr_split:
  "map Inr ps = concat (map F nodes) \<Longrightarrow>
   \<exists>fss. ps = concat fss \<and> length fss = length nodes
      \<and> (\<forall>i < length nodes. F (nodes ! i) = map Inr (fss ! i))"
proof (induction nodes arbitrary: ps)
  case Nil
  then show ?case by simp
next
  case (Cons n ns)
  then have "map Inr ps = F n @ concat (map F ns)" by simp
  then obtain us vs where uv: "ps = us @ vs" "F n = map Inr us" "concat (map F ns) = map Inr vs"
    by (auto simp: map_eq_append_conv)
  from Cons.IH [of vs] uv(3) obtain gss where g: "vs = concat gss" "length gss = length ns"
      "\<forall>i < length ns. F (ns ! i) = map Inr (gss ! i)"
    by auto
  show ?case
  proof (intro exI [of _ "us # gss"] conjI allI impI)
    show "ps = concat (us # gss)" using uv(1) g(1) by simp
    show "length (us # gss) = length (n # ns)" using g(2) by simp
    fix i assume "i < length (n # ns)"
    then show "F ((n # ns) ! i) = map Inr ((us # gss) ! i)"
      using uv(2) g(3) by (cases i) simp_all
  qed
qed

lemma hardcoded_return_empty:
  "hardcoded_return lines f tvs lno c st = [] \<longleftrightarrow>
   \<not> ((\<exists>v. st = Return (Some v) \<and> unparse v \<in> outputs tvs)
        \<and> (\<exists>inp \<in> inputs tvs. contains c inp))"
  by (auto simp: hardcoded_return_def Let_def split: stmt.splits option.splits)

lemma hardcoded_return_cases:
  "hardcoded_return lines f tvs lno c st = [] \<or>
   (\<exists>v. st = Return (Some v) \<and> unparse v \<in> outputs tvs
      \<and> (\<exists>inp \<in> inputs tvs. contains c inp)
      \<and> hardcoded_return lines f tvs lno c st =
          [case index_list lines (lno - 1) of
             Inl e \<Rightarrow> Inl e
           | Inr l \<Rightarrow>
               Inr \<lparr>pattern_type = ''hardcoded_return'',
                    description = ''Returns '' @ unparse v @ '' when condition matches test input'',
                    file = f, line = lno, code_snippet = strip l, severity = ''high''\<rparr>])"
  by (auto simp: hardcoded_return_def Let_def split: stmt.splits option.splits)

lemma hardcoded_return_member:
  assumes "Inr p \<in> set (hardcoded_return lines f tvs lno c st)"
  shows "pattern_type p = ''hardcoded_return'' \<and> severity p = ''high'' \<and> line p = lno
         \<and> file p = f
         \<and> (\<exists>l. index_list lines (lno - 1) = Inr l \<and> code_snippet p = strip l)"
proof -
  from assms have "hardcoded_return lines f tvs lno c st \<noteq> []" by auto
  with hardcoded_return_cases [of lines f tvs lno c st]
  obtain v where v: "hardcoded_return lines f tvs lno c st =
          [case index_list lines (lno - 1) of
             Inl e \<Rightarrow> Inl e
           | Inr l \<Rightarrow>
               Inr \<lparr>pattern_type = ''hardcoded_return'',
                    description = ''Returns '' @ unparse v @ '' when condition matches test input'',
                    file = f, line = lno, code_snippet = strip l, severity = ''high''\<rparr>]"
    by blast
  show ?thesis
  proof (cases "index_list lines (lno - 1)")
    case (Inl e)
    with v assms show ?thesis by simp
  next
    case (Inr l)
    with v assms show ?thesis by simp
  qed
qed

lemma visit_If_node:
  assumes "visit_If lines f tvs lno t b = map Inr fs"
  shows "(fs \<noteq> [] \<longleftrightarrow>
            (\<exists>v. Return (Some v) \<in> set b \<and> unparse v \<in> outputs tvs)
          \<and> (\<exists>inp \<in> inputs tvs. contains (unparse t) inp))"
    and "\<forall>p \<in> set fs. pattern_type p = ''hardcoded_return'' \<and> severity p = ''high''
            \<and> line p = lno \<and> file p = f
            \<and> (\<exists>l. index_list lines (lno - 1) = Inr l \<and> code_snippet p = strip l)"
proof -
  let ?h = "hardcoded_return lines f tvs lno (unparse t)"
  have eq: "concat (map ?h b) = map Inr fs" using assms by (simp add: visit_If_def)
  have "fs = [] \<longleftrightarrow> map Inr fs = ([] :: (error + CheatingPattern) list)" by simp
  also have "\<dots> \<longleftrightarrow> concat (map ?h b) = []" by (simp only: eq)
  also have "\<dots> \<longleftrightarrow> (\<forall>st \<in> set b. ?h st = [])" by simp
  finally have e: "fs = [] \<longleftrightarrow> (\<forall>st \<in> set b. ?h st = [])" .
  have "(\<exists>st \<in> set b. ?h st \<noteq> []) \<longleftrightarrow>
          (\<exists>v. Return (Some v) \<in> set b \<and> unparse v \<in> outputs tvs)
        \<and> (\<exists>inp \<in> inputs tvs. contains (unparse t) inp)"
    unfolding hardcoded_return_empty by blast
  with e show "(fs \<noteq> [] \<longleftrightarrow>
            (\<exists>v. Return (Some v) \<in> set b \<and> unparse v \<in> outputs tvs)
          \<and> (\<exists>inp \<in> inputs tvs. contains (unparse t) inp))"
    by blast
  show "\<forall>p \<in> set fs. pattern_type p = ''hardcoded_return'' \<and> severity p = ''high''
            \<and> line p = lno \<and> file p = f
            \<and> (\<exists>l. index_list lines (lno - 1) = Inr l \<and> code_snippet p = strip l)"
  proof
    fix p assume "p \<in> set fs"
    then have "Inr p \<in> set (map Inr fs)" by simp
    then have "Inr p \<in> set (concat (map ?h b))" by (simp only: eq)
    then obtain st where "Inr p \<in> set (?h st)" by auto
    then show "pattern_type p = ''hardcoded_return'' \<and> severity p = ''high''
            \<and> line p = lno \<and> file p = f
            \<and> (\<exists>l. index_list lines (lno - 1) = Inr l \<and> code_snippet p = strip l)"
      by (rule hardcoded_return_member)
  qed
qed

lemma singleton_map_Inr: "[Inr p] = map Inr fs \<longleftrightarrow> fs = [p]"
  by (cases fs) auto

lemma visit_Dict_node:
  assumes "visit_Dict lines f tvs lno ks = map Inr fs"
  shows "key_matches tvs ks < 2 \<longrightarrow> fs = []"
    and "key_matches tvs ks \<ge> 2 \<longrightarrow>
           (\<exists>p l. fs = [p] \<and> index_list lines (lno - 1) = Inr l
              \<and> pattern_type p = ''lookup_table'' \<and> severity p = ''high''
              \<and> line p = lno \<and> file p = f \<and> code_snippet p = take 80 (strip l))"
proof -
  show "key_matches tvs ks < 2 \<longrightarrow> fs = []"
  proof
    assume "key_matches tvs ks < 2"
    then have "visit_Dict lines f tvs lno ks = []" by (simp add: visit_Dict_def)
    with assms show "fs = []" by simp
  qed
  show "key_matches tvs ks \<ge> 2 \<longrightarrow>
           (\<exists>p l. fs = [p] \<and> index_list lines (lno - 1) = Inr l
              \<and> pattern_type p = ''lookup_table'' \<and> severity p = ''high''
              \<and> line p = lno \<and> file p = f \<and> code_snippet p = take 80 (strip l))"
  proof
    assume k: "key_matches tvs ks \<ge> 2"
    show "\<exists>p l. fs = [p] \<and> index_list lines (lno - 1) = Inr l
              \<and> pattern_type p = ''lookup_table'' \<and> severity p = ''high''
              \<and> line p = lno \<and> file p = f \<and> code_snippet p = take 80 (strip l)"
    proof (cases "index_list lines (lno - 1)")
      case (Inl e)
      with k have "visit_Dict lines f tvs lno ks = [Inl e]" by (simp add: visit_Dict_def)
      with assms have "[Inl e] = map Inr fs" by simp
      then show ?thesis by (cases fs) auto
    next
      case (Inr l)
      let ?p = "\<lparr>pattern_type = ''lookup_table'',
                 description = ''Dictionary with '' @ str_nat (key_matches tvs ks)
                                 @ '' keys matching test inputs'',
                 file = f, line = lno, code_snippet = take 80 (strip l),
                 severity = ''high''\<rparr>"
      from k Inr have "visit_Dict lines f tvs lno ks = [Inr ?p]" by (simp add: visit_Dict_def)
      with assms have "fs = [?p]" by (simp add: singleton_map_Inr)
      with Inr show ?thesis by simp
    qed
  qed
qed

lemma detector_nodes:
  assumes "collect (concat (map V tree)) = Inr ps"
    and "\<And>st. V st = concat (map F (N st))"
  shows "\<exists>fss. ps = concat fss \<and> length fss = length (concat (map N tree))
      \<and> (\<forall>i < length fss. F (concat (map N tree) ! i) = map Inr (fss ! i))"
proof -
  have "map Inr ps = concat (map V tree)" using assms(1) by (simp add: collect_Inr)
  also have "\<dots> = concat (map (\<lambda>st. concat (map F (N st))) tree)"
  proof -
    have "V = (\<lambda>st. concat (map F (N st)))" using assms(2) by (intro ext)
    then show ?thesis by (simp only:)
  qed
  also have "\<dots> = concat (map F (concat (map N tree)))"
    by (simp add: concat_map_concat comp_def)
  finally have "map Inr ps = concat (map F (concat (map N tree)))" .
  from concat_Inr_split [OF this] show ?thesis by metis
qed

lemma guard_x_eq_5:
  "unparse (Compare (Name ''x'') [Eq] [Constant (CInt 5)]) = ''x == 5''"
  by code_simp

lemma unparse_25: "unparse (Constant (CInt 25)) = ''25''"
  by code_simp

lemma unparse_24: "unparse (Constant (CInt 24)) = ''24''"
  by code_simp

text \<open>
  Claim C5. Where the detector returns, its findings are those of the conditionals of the
  tree, in order. A conditional has findings exactly when a \<^verbatim>\<open>return\<close> with a value
  that is a statement of its then-branch unparses to a member of the test outputs and the
  unparsed guard contains a member of the test inputs; they have the type
  \<^verbatim>\<open>hardcoded_return\<close>, high severity and the conditional's line. With inputs
  \<^verbatim>\<open>{"5"}\<close> and outputs \<^verbatim>\<open>{"25"}\<close>, the tree of \<^verbatim>\<open>if x == 5: return 25\<close> has
  exactly one finding and that of \<^verbatim>\<open>if x == 5: return 24\<close> has none.
\<close>

theorem hardcoded_return_findings:
  assumes "fs impl_file = Some content" and "parse content = Some tree"
    and "detect_hardcoded_returns fs parse impl_file tvs = Inr ps"
  shows
    "(\<exists>fss. ps = concat fss \<and> length fss = length (concat (map if_nodes tree))
        \<and> (\<forall>i < length fss.
              case concat (map if_nodes tree) ! i of
                (lno, t, b) \<Rightarrow>
                  (fss ! i \<noteq> [] \<longleftrightarrow>
                     (\<exists>v. Return (Some v) \<in> set b \<and> unparse v \<in> outputs tvs)
                   \<and> (\<exists>inp \<in> inputs tvs. contains (unparse t) inp))
                \<and> (\<forall>p \<in> set (fss ! i).
                      pattern_type p = ''hardcoded_return'' \<and> severity p = ''high''
                    \<and> line p = lno)))
     \<and> (tvs = \<lparr>inputs = {''5''}, outputs = {''25''}\<rparr>
          \<and> tree = [IfStmt lno (Compare (Name ''x'') [Eq] [Constant (CInt 5)])
                      [Return (Some (Constant (CInt r)))] []]
        \<longrightarrow> (r = 25 \<longrightarrow>
               (\<exists>p. ps = [p] \<and> pattern_type p = ''hardcoded_return''
                  \<and> severity p = ''high'' \<and> line p = lno))
          \<and> (r = 24 \<longrightarrow> ps = []))"
proof (intro conjI impI)
  let ?lines = "split_nl content"
  have c: "collect (concat (map (hc_visit ?lines impl_file tvs) tree)) = Inr ps"
    using assms by (simp add: detect_hardcoded_returns_def read_text_def ast_parse_def)
  from detector_nodes [OF c hc_visit_nodes]
  obtain fss where fss: "ps = concat fss" "length fss = length (concat (map if_nodes tree))"
    "\<forall>i < length fss.
       (case concat (map if_nodes tree) ! i of
          (lno, t, b) \<Rightarrow> visit_If ?lines impl_file tvs lno t b) = map Inr (fss ! i)"
    by blast
  show "\<exists>fss. ps = concat fss \<and> length fss = length (concat (map if_nodes tree))
        \<and> (\<forall>i < length fss.
              case concat (map if_nodes tree) ! i of
                (lno, t, b) \<Rightarrow>
                  (fss ! i \<noteq> [] \<longleftrightarrow>
                     (\<exists>v. Return (Some v) \<in> set b \<and> unparse v \<in> outputs tvs)
                   \<and> (\<exists>inp \<in> inputs tvs. contains (unparse t) inp))
                \<and> (\<forall>p \<in> set (fss ! i).
                      pattern_type p = ''hardcoded_return'' \<and> severity p = ''high''
                    \<and> line p = lno))"
  proof (intro exI [of _ fss] conjI allI impI)
    show "ps = concat fss" by (rule fss(1))
    show "length fss = length (concat (map if_nodes tree))" by (rule fss(2))
    fix i assume i: "i < length fss"
    obtain lno t b where n: "concat (map if_nodes tree) ! i = (lno, t, b)"
      by (cases "concat (map if_nodes tree) ! i") auto
    with fss(3) i have v: "visit_If ?lines impl_file tvs lno t b = map Inr (fss ! i)"
      by auto
    from visit_If_node(1) [OF v] visit_If_node(2) [OF v]
    show "case concat (map if_nodes tree) ! i of
                (lno, t, b) \<Rightarrow>
                  (fss ! i \<noteq> [] \<longleftrightarrow>
                     (\<exists>v. Return (Some v) \<in> set b \<and> unparse v \<in> outputs tvs)
                   \<and> (\<exists>inp \<in> inputs tvs. contains (unparse t) inp))
                \<and> (\<forall>p \<in> set (fss ! i).
                      pattern_type p = ''hardcoded_return'' \<and> severity p = ''high''
                    \<and> line p = lno)"
      unfolding n by simp
  qed
next
  let ?lines = "split_nl content"
  let ?g = "Compare (Name ''x'') [Eq] [Constant (CInt 5)]"
  assume ex: "tvs = \<lparr>inputs = {''5''}, outputs = {''25''}\<rparr>
          \<and> tree = [IfStmt lno ?g [Return (Some (Constant (CInt r)))] []]"
  have c: "collect (concat (map (hc_visit ?lines impl_file tvs) tree)) = Inr ps"
    using assms by (simp add: detect_hardcoded_returns_def read_text_def ast_parse_def)
  then have m: "map Inr ps = hardcoded_return ?lines impl_file tvs lno (unparse ?g)
                               (Return (Some (Constant (CInt r))))"
    using ex by (simp add: collect_Inr visit_If_def)
  {
    assume r: "r = 25"
    have "hardcoded_return ?lines impl_file tvs lno (unparse ?g)
            (Return (Some (Constant (CInt r)))) \<noteq> []"
      using ex r
      by (simp add: hardcoded_return_empty unparse_25 guard_x_eq_5 starts_with_def)
    with m obtain p ps' where p: "ps = p # ps'" by (cases ps) auto
    with m have in1: "Inr p \<in> set (hardcoded_return ?lines impl_file tvs lno (unparse ?g)
            (Return (Some (Constant (CInt r)))))"
      by (metis list.set_intros(1) list.simps(9))
    from hardcoded_return_cases
           [of ?lines impl_file tvs lno "unparse ?g" "Return (Some (Constant (CInt r)))"]
    have "length (hardcoded_return ?lines impl_file tvs lno (unparse ?g)
            (Return (Some (Constant (CInt r))))) \<le> 1"
      by auto
    with m p have "ps' = []" by (metis One_nat_def Suc_le_mono le_zero_eq length_0_conv
          length_Cons length_map)
    with p hardcoded_return_member [OF in1]
    show "\<exists>p. ps = [p] \<and> pattern_type p = ''hardcoded_return''
                  \<and> severity p = ''high'' \<and> line p = lno"
      by blast
  }
  {
    assume r: "r = 24"
    have "hardcoded_return ?lines impl_file tvs lno (unparse ?g)
            (Return (Some (Constant (CInt r)))) = []"
      using ex r by (simp add: hardcoded_return_empty unparse_24)
    with m show "ps = []" by simp
  }
qed

lemma square_files:
  "example_files ''square.py'' = Some square_py"
  "example_parser square_py = Some (square_tree 25)"
  by (simp_all add: example_files_def example_parser_def square_py_def square24_py_def)

lemma square_findings:
  "detect_hardcoded_returns example_files example_parser ''square.py''
     \<lparr>inputs = {''5''}, outputs = {''25''}\<rparr> =
   Inr [\<lparr>pattern_type = ''hardcoded_return'',
          description = ''Returns 25 when condition matches test input'',
          file = ''square.py'', line = 1, code_snippet = ''if x == 5: return 25'',
          severity = ''high''\<rparr>]"
  by code_simp

text \<open>
  Claim C5, witness: the theorem at \<^verbatim>\<open>square.py\<close>.
\<close>

theorem hardcoded_return_findings_witness:
  "example_files ''square.py'' = Some square_py
   \<and> example_parser square_py = Some (square_tree 25)
   \<and> square_tree 25 =
        [IfStmt 1 (Compare (Name ''x'') [Eq] [Constant (CInt 5)])
           [Return (Some (Constant (CInt 25)))] []]
   \<and> detect_hardcoded_returns example_files example_parser ''square.py''
        \<lparr>inputs = {''5''}, outputs = {''25''}\<rparr> =
      Inr [\<lparr>pattern_type = ''hardcoded_return'',
             description = ''Returns 25 when condition matches test input'',
             file = ''square.py'', line = 1, code_snippet = ''if x == 5: return 25'',
             severity = ''high''\<rparr>]
   \<and> (\<exists>fss. [\<lparr>pattern_type = ''hardcoded_return'',
               description = ''Returns 25 when condition matches test input'',
               file = ''square.py'', line = 1, code_snippet = ''if x == 5: return 25'',
               severity = ''high''\<rparr>] = concat fss
          \<and> length fss = length (concat (map if_nodes (square_tree 25))))
   \<and> (\<exists>p. [\<lparr>pattern_type = ''hardcoded_return'',
               description = ''Returns 25 when condition matches test input'',
               file = ''square.py'', line = 1, code_snippet = ''if x == 5: return 25'',
               severity = ''high''\<rparr>] = [p]
          \<and> pattern_type p = ''hardcoded_return'' \<and> severity p = ''high'' \<and> line p = 1)"
proof -
  note t = hardcoded_return_findings
             [OF square_files square_findings, where lno = 1 and r = 25]
  have h: "square_tree 25 =
        [IfStmt 1 (Compare (Name ''x'') [Eq] [Constant (CInt 5)])
           [Return (Some (Constant (CInt 25)))] []]"
    by (simp add: square_tree_def)
  from t have c1:
    "\<exists>fss. [\<lparr>pattern_type = ''hardcoded_return'',
               description = ''Returns 25 when condition matches test input'',
               file = ''square.py'', line = 1, code_snippet = ''if x == 5: return 25'',
               severity = ''high''\<rparr>] = concat fss
          \<and> length fss = length (concat (map if_nodes (square_tree 25)))"
    by blast
  from t h have c2:
    "\<exists>p. [\<lparr>pattern_type = ''hardcoded_return'',
               description = ''Returns 25 when condition matches test input'',
               file = ''square.py'', line = 1, code_snippet = ''if x == 5: return 25'',
               severity = ''high''\<rparr>] = [p]
          \<and> pattern_type p = ''hardcoded_return'' \<and> severity p = ''high'' \<and> line p = 1"
    by blast
  from square_files square_findings h c1 c2 show ?thesis by blast
qed

text \<open>
  Claim C6, as the code has it. Where the detector returns, its findings are those of the
  dictionary displays of the tree, in order. A display with fewer than two keys that
  unparse to test inputs has no finding; one with two or more has exactly one, of high
  severity, at the display's line, and its snippet is the first 80 characters of that
  line with the white space at both ends removed.
\<close>

theorem lookup_table_findings:
  assumes "fs impl_file = Some content" and "parse content = Some tree"
    and "detect_lookup_tables fs parse impl_file tvs = Inr ps"
  shows
    "\<exists>fss. ps = concat fss \<and> length fss = length (concat (map dict_nodes tree))
        \<and> (\<forall>i < length fss.
              case concat (map dict_nodes tree) ! i of
                (lno, ks) \<Rightarrow>
                  (key_matches tvs ks < 2 \<longrightarrow> fss ! i = [])
                \<and> (key_matches tvs ks \<ge> 2 \<longrightarrow>
                     (\<exists>p l. fss ! i = [p] \<and> index_list (split_nl content) (lno - 1) = Inr l
                        \<and> pattern_type p = ''lookup_table'' \<and> severity p = ''high''
                        \<and> line p = lno \<and> code_snippet p = take 80 (strip l))))"
proof -
  let ?lines = "split_nl content"
  have c: "collect (concat (map (lt_stmt ?lines impl_file tvs) tree)) = Inr ps"
    using assms by (simp add: detect_lookup_tables_def read_text_def ast_parse_def)
  from detector_nodes [OF c lt_stmt_nodes]
  obtain fss where fss: "ps = concat fss" "length fss = length (concat (map dict_nodes tree))"
    "\<forall>i < length fss.
       (case concat (map dict_nodes tree) ! i of
          (lno, ks) \<Rightarrow> visit_Dict ?lines impl_file tvs lno ks) = map Inr (fss ! i)"
    by blast
  show ?thesis
  proof (intro exI [of _ fss] conjI allI impI)
    show "ps = concat fss" by (rule fss(1))
    show "length fss = length (concat (map dict_nodes tree))" by (rule fss(2))
    fix i assume i: "i < length fss"
    obtain lno ks where n: "concat (map dict_nodes tree) ! i = (lno, ks)"
      by (cases "concat (map dict_nodes tree) ! i") auto
    with fss(3) i have v: "visit_Dict ?lines impl_file tvs lno ks = map Inr (fss ! i)"
      by auto
    from visit_Dict_node(1) [OF v] visit_Dict_node(2) [OF v]
    show "case concat (map dict_nodes tree) ! i of
                (lno, ks) \<Rightarrow>
                  (key_matches tvs ks < 2 \<longrightarrow> fss ! i = [])
                \<and> (key_matches tvs ks \<ge> 2 \<longrightarrow>
                     (\<exists>p l. fss ! i = [p] \<and> index_list (split_nl content) (lno - 1) = Inr l
                        \<and> pattern_type p = ''lookup_table'' \<and> severity p = ''high''
                        \<and> line p = lno \<and> code_snippet p = take 80 (strip l)))"
      unfolding n by auto
  qed
qed

lemma table_files:
  "example_files ''table.py'' = Some table_py"
  "example_parser table_py = Some table_tree"
  by code_simp+

lemma table_findings:
  "detect_lookup_tables example_files example_parser ''table.py''
     \<lparr>inputs = {''5'', ''6''}, outputs = {''25'', ''36''}\<rparr> =
   Inr [\<lparr>pattern_type = ''lookup_table'',
          description = ''Dictionary with 2 keys matching test inputs'',
          file = ''table.py'', line = 2, code_snippet = ''table = {5: 25, 6: 36}'',
          severity = ''high''\<rparr>]"
  by code_simp

text \<open>
  Claim C6, witness: the theorem at \<^verbatim>\<open>table.py\<close>.
\<close>

theorem lookup_table_findings_witness:
  "example_files ''table.py'' = Some table_py
   \<and> example_parser table_py = Some table_tree
   \<and> detect_lookup_tables example_files example_parser ''table.py''
        \<lparr>inputs = {''5'', ''6''}, outputs = {''25'', ''36''}\<rparr> =
      Inr [\<lparr>pattern_type = ''lookup_table'',
             description = ''Dictionary with 2 keys matching test inputs'',
             file = ''table.py'', line = 2, code_snippet = ''table = {5: 25, 6: 36}'',
             severity = ''high''\<rparr>]
   \<and> (\<exists>fss. [\<lparr>pattern_type = ''lookup_table'',
               description = ''Dictionary with 2 keys matching test inputs'',
               file = ''table.py'', line = 2, code_snippet = ''table = {5: 25, 6: 36}'',
               severity = ''high''\<rparr>] = concat fss
          \<and> length fss = length (concat (map dict_nodes table_tree)))"
  using lookup_table_findings [OF table_files table_findings] table_files table_findings
  by blast

text \<open>
  Claim C6, counterexample. The claim as stated fails for a display on an indented
  line: the snippet is not the line cut at 80 characters, which starts with the
  indentation.
\<close>

theorem lookup_snippet_is_trimmed:
  "detect_lookup_tables example_files example_parser ''table.py''
     \<lparr>inputs = {''5'', ''6''}, outputs = {''25'', ''36''}\<rparr> =
   Inr [\<lparr>pattern_type = ''lookup_table'',
          description = ''Dictionary with 2 keys matching test inputs'',
          file = ''table.py'', line = 2, code_snippet = ''table = {5: 25, 6: 36}'',
          severity = ''high''\<rparr>]
   \<and> take 80 (split_nl table_py ! 1) = ''    table = {5: 25, 6: 36}''
   \<and> ''table = {5: 25, 6: 36}'' \<noteq> take 80 (split_nl table_py ! 1)"
proof (intro conjI)
  show "detect_lookup_tables example_files example_parser ''table.py''
     \<lparr>inputs = {''5'', ''6''}, outputs = {''25'', ''36''}\<rparr> =
   Inr [\<lparr>pattern_type = ''lookup_table'',
          description = ''Dictionary with 2 keys matching test inputs'',
          file = ''table.py'', line = 2, code_snippet = ''table = {5: 25, 6: 36}'',
          severity = ''high''\<rparr>]"
    by code_simp
  show l: "take 80 (split_nl table_py ! 1) = ''    table = {5: 25, 6: 36}''"
    by code_simp
  show "''table = {5: 25, 6: 36}'' \<noteq> take 80 (split_nl table_py ! 1)"
    unfolding l by simp
qed

text \<open>
  Claim C8, as the code has it. The detector's findings are those of the
  \<^verbatim>\<open>FunctionDef\<close> nodes of the tree, in order. Such a function definition has one
  finding, of medium severity at its line, when the number of conditionals inside it is
  more than 5 and more than a third of \<^verbatim>\<open>end_lineno - lineno\<close>, which is one less than
  the number of its lines, and none otherwise. With six conditionals in nine lines it has
  one; with five it has none. An \<^verbatim>\<open>async def\<close> that holds no function definition has no
  finding.
\<close>

theorem excessive_conditionals_findings:
  assumes "fs impl_file = Some content" and "parse content = Some tree"
    and "detect_excessive_conditionals fs parse impl_file = Inr ps"
  shows
    "(\<exists>fss. ps = concat fss \<and> length fss = length (concat (map def_nodes tree))
        \<and> (\<forall>i < length fss.
              case concat (map def_nodes tree) ! i of
                (nm, lno, end_lno, b) \<Rightarrow>
                  (let if_count = sum_list (map count_if b); line_count = end_lno - lno
                   in (if_count > 5 \<and> real if_count > real_of_int line_count / 3 \<longrightarrow>
                         (\<exists>p. fss ! i = [p] \<and> pattern_type p = ''excessive_conditionals''
                            \<and> severity p = ''medium'' \<and> line p = lno))
                    \<and> (\<not> (if_count > 5 \<and> real if_count > real_of_int line_count / 3) \<longrightarrow>
                         fss ! i = [])
                    \<and> (if_count = 6 \<and> end_lno = lno + 8 \<longrightarrow> length (fss ! i) = 1)
                    \<and> (if_count = 5 \<and> end_lno = lno + 8 \<longrightarrow> fss ! i = []))))
     \<and> (\<forall>nm lno end_lno b.
           tree = [AsyncFunctionDef nm lno end_lno b] \<and> concat (map def_nodes b) = [] \<longrightarrow>
           ps = [])"
proof -
  let ?F = "\<lambda>(nm, lno, end_lno, b). visit_FunctionDef impl_file nm lno end_lno b"
  let ?nodes = "concat (map def_nodes tree)"
  have "ps = concat (map (ec_visit impl_file) tree)"
    using assms by (simp add: detect_excessive_conditionals_def read_text_def ast_parse_def)
  also have "\<dots> = concat (map ?F ?nodes)"
  proof -
    have "ec_visit impl_file = (\<lambda>st. concat (map ?F (def_nodes st)))"
      by (intro ext) (rule ec_visit_nodes)
    then show ?thesis by (simp add: concat_map_concat comp_def)
  qed
  finally have ps: "ps = concat (map ?F ?nodes)" .
  have nodes:
    "\<exists>fss. ps = concat fss \<and> length fss = length ?nodes
        \<and> (\<forall>i < length fss.
              case ?nodes ! i of
                (nm, lno, end_lno, b) \<Rightarrow>
                  (let if_count = sum_list (map count_if b); line_count = end_lno - lno
                   in (if_count > 5 \<and> real if_count > real_of_int line_count / 3 \<longrightarrow>
                         (\<exists>p. fss ! i = [p] \<and> pattern_type p = ''excessive_conditionals''
                            \<and> severity p = ''medium'' \<and> line p = lno))
                    \<and> (\<not> (if_count > 5 \<and> real if_count > real_of_int line_count / 3) \<longrightarrow>
                         fss ! i = [])
                    \<and> (if_count = 6 \<and> end_lno = lno + 8 \<longrightarrow> length (fss ! i) = 1)
                    \<and> (if_count = 5 \<and> end_lno = lno + 8 \<longrightarrow> fss ! i = [])))"
  proof (intro exI [of _ "map ?F ?nodes"] conjI allI impI)
    show "ps = concat (map ?F ?nodes)" by (rule ps)
    show "length (map ?F ?nodes) = length ?nodes" by simp
    fix i assume "i < length (map ?F ?nodes)"
    then have i: "i < length ?nodes" by simp
    obtain nm lno end_lno b where n: "?nodes ! i = (nm, lno, end_lno, b)"
      by (cases "?nodes ! i") auto
    have m: "map ?F ?nodes ! i = visit_FunctionDef impl_file nm lno end_lno b"
      using i n by simp
    show "case ?nodes ! i of
                (nm, lno, end_lno, b) \<Rightarrow>
                  (let if_count = sum_list (map count_if b); line_count = end_lno - lno
                   in (if_count > 5 \<and> real if_count > real_of_int line_count / 3 \<longrightarrow>
                         (\<exists>p. map ?F ?nodes ! i = [p]
                            \<and> pattern_type p = ''excessive_conditionals''
                            \<and> severity p = ''medium'' \<and> line p = lno))
                    \<and> (\<not> (if_count > 5 \<and> real if_count > real_of_int line_count / 3) \<longrightarrow>
                         map ?F ?nodes ! i = [])
                    \<and> (if_count = 6 \<and> end_lno = lno + 8 \<longrightarrow>
                         length (map ?F ?nodes ! i) = 1)
                    \<and> (if_count = 5 \<and> end_lno = lno + 8 \<longrightarrow> map ?F ?nodes ! i = []))"
      unfolding n m by (auto simp: visit_FunctionDef_def Let_def)
  qed
  have async: "\<forall>nm lno end_lno b.
           tree = [AsyncFunctionDef nm lno end_lno b] \<and> concat (map def_nodes b) = [] \<longrightarrow>
           ps = []"
    using ps by auto
  from nodes async show ?thesis by (rule conjI)
qed

lemma branchy_files:
  "example_files ''branchy.py'' = Some branchy_py"
  "example_parser branchy_py = Some branchy_tree"
  by code_simp+

lemma branchy_findings:
  "detect_excessive_conditionals example_files example_parser ''branchy.py'' =
   Inr [\<lparr>pattern_type = ''excessive_conditionals'',
          description = ''Function 'f' has 6 conditionals in 8 lines'',
          file = ''branchy.py'', line = 1, code_snippet = ''def f(...):'',
          severity = ''medium''\<rparr>]"
  by code_simp

text \<open>
  Claim C8, witness: the theorem at \<^verbatim>\<open>branchy.py\<close>.
\<close>

theorem excessive_conditionals_findings_witness:
  "example_files ''branchy.py'' = Some branchy_py
   \<and> example_parser branchy_py = Some branchy_tree
   \<and> detect_excessive_conditionals example_files example_parser ''branchy.py'' =
      Inr [\<lparr>pattern_type = ''excessive_conditionals'',
             description = ''Function 'f' has 6 conditionals in 8 lines'',
             file = ''branchy.py'', line = 1, code_snippet = ''def f(...):'',
             severity = ''medium''\<rparr>]
   \<and> length (split_nl branchy_py) = 9
   \<and> (\<exists>fss. [\<lparr>pattern_type = ''excessive_conditionals'',
               description = ''Function 'f' has 6 conditionals in 8 lines'',
               file = ''branchy.py'', line = 1, code_snippet = ''def f(...):'',
               severity = ''medium''\<rparr>] = concat fss
          \<and> length fss = length (concat (map def_nodes branchy_tree)))"
proof -
  have n: "length (split_nl branchy_py) = 9" by code_simp
  from excessive_conditionals_findings [OF branchy_files branchy_findings]
    branchy_files branchy_findings n
  show ?thesis by blast
qed

lemma long_findings:
  "detect_excessive_conditionals example_files example_parser ''long.py'' =
   Inr [\<lparr>pattern_type = ''excessive_conditionals'',
          description = ''Function 'f' has 6 conditionals in 17 lines'',
          file = ''long.py'', line = 1, code_snippet = ''def f(...):'',
          severity = ''medium''\<rparr>]"
  by code_simp

text \<open>
  Claim C8, counterexample. The claim as stated fails twice. A function of eighteen lines
  with six conditionals has a finding, although 6 is not more than 18 / 3: the detector
  divides 17. An \<^verbatim>\<open>async def\<close> of nine lines with six conditionals has none.
\<close>

theorem span_and_async_differ:
  "map_sum id (map description)
     (detect_excessive_conditionals example_files example_parser ''long.py'')
     = Inr [''Function 'f' has 6 conditionals in 17 lines'']
   \<and> length (split_nl long_py) = 18
   \<and> \<not> ((6::real) > 18 / 3)
   \<and> detect_excessive_conditionals example_files example_parser ''async.py'' = Inr []
   \<and> sum_list (map count_if async_tree) = 6
   \<and> length (split_nl async_py) = 9
   \<and> (6::real) > 9 / 3"
proof (intro conjI)
  show "map_sum id (map description)
     (detect_excessive_conditionals example_files example_parser ''long.py'')
     = Inr [''Function 'f' has 6 conditionals in 17 lines'']"
    by (simp add: long_findings)
  show "length (split_nl long_py) = 18" by code_simp
  show "\<not> ((6::real) > 18 / 3)" by simp
  show "detect_excessive_conditionals example_files example_parser ''async.py'' = Inr []"
    by code_simp
  show "sum_list (map count_if async_tree) = 6" by code_simp
  show "length (split_nl async_py) = 9" by code_simp
  show "(6::real) > 9 / 3" by simp
qed

lemma te_line_eq:
  "te_line f i l ps =
     map (\<lambda>(pat, d). \<lparr>pattern_type = ''test_detection'', description = d, file = f,
                        line = i, code_snippet = strip l, severity = ''high''\<rparr>)
       (filter (\<lambda>(pat, d). re_search pat l) ps)"
proof (induction ps)
  case Nil
  show ?case by simp
next
  case (Cons a ps)
  obtain pat d where a: "a = (pat, d)" by (cases a)
  show ?case unfolding a using Cons by simp
qed

lemma te_lines_eq:
  "te_lines f i ls =
     concat (map (\<lambda>k. te_line f (i + int k) (ls ! k) test_detection_patterns) [0..<length ls])"
proof (induction ls arbitrary: i)
  case Nil
  show ?case by simp
next
  case (Cons l ls)
  have "te_lines f i (l # ls) =
          te_line f i l test_detection_patterns @ te_lines f (i + 1) ls"
    by simp
  also have "te_lines f (i + 1) ls =
      concat (map (\<lambda>k. te_line f (i + 1 + int k) (ls ! k) test_detection_patterns)
                [0..<length ls])"
    by (rule Cons.IH)
  also have "te_line f i l test_detection_patterns @ \<dots> =
      concat (map (\<lambda>k. te_line f (i + int k) ((l # ls) ! k) test_detection_patterns)
                [0..<length (l # ls)])"
    by (simp add: map_upt_Suc add.assoc del: upt_Suc)
  finally show ?case .
qed

text \<open>
  Claim C7, as the code has it. The findings are those of the lines, in order, and a
  line has one finding for every pattern of the table that it matches: of high severity,
  with the pattern's description, the line's number and the line's text without the white
  space at its ends.
\<close>

theorem test_environment_findings:
  assumes "fs impl_file = Some content"
  shows
    "\<exists>fss. detect_test_environment_checks fs impl_file = Inr (concat fss)
        \<and> length fss = length (split_nl content)
        \<and> (\<forall>i < length fss.
              fss ! i =
                map (\<lambda>(pat, d).
                       \<lparr>pattern_type = ''test_detection'', description = d, file = impl_file,
                        line = int i + 1, code_snippet = strip (split_nl content ! i),
                        severity = ''high''\<rparr>)
                  (filter (\<lambda>(pat, d). re_search pat (split_nl content ! i))
                     test_detection_patterns))"
proof -
  let ?ls = "split_nl content"
  let ?fss = "map (\<lambda>k. te_line impl_file (1 + int k) (?ls ! k) test_detection_patterns)
                [0..<length ?ls]"
  show ?thesis
  proof (intro exI [of _ ?fss] conjI allI impI)
    show "detect_test_environment_checks fs impl_file = Inr (concat ?fss)"
      using assms by (simp add: detect_test_environment_checks_def read_text_def te_lines_eq)
    show "length ?fss = length ?ls" by simp
    fix i assume "i < length ?fss"
    then have "i < length ?ls" by simp
    then have "?fss ! i = te_line impl_file (1 + int i) (?ls ! i) test_detection_patterns"
      by simp
    then show "?fss ! i =
                map (\<lambda>(pat, d).
                       \<lparr>pattern_type = ''test_detection'', description = d, file = impl_file,
                        line = int i + 1, code_snippet = strip (?ls ! i),
                        severity = ''high''\<rparr>)
                  (filter (\<lambda>(pat, d). re_search pat (?ls ! i)) test_detection_patterns)"
      by (simp only: te_line_eq add.commute)
  qed
qed

lemma env_file: "example_files ''env.py'' = Some env_py"
  by code_simp

text \<open>
  Claim C7, witness: the theorem at \<^verbatim>\<open>env.py\<close>.
\<close>

theorem test_environment_findings_witness:
  "example_files ''env.py'' = Some env_py
   \<and> (\<exists>fss. detect_test_environment_checks example_files ''env.py'' = Inr (concat fss)
          \<and> length fss = length (split_nl env_py))"
  using test_environment_findings [where fs = example_files and impl_file = "''env.py''" and content = env_py] env_file by blast

text \<open>
  Claim C7, counterexample. The claim as stated fails: the second line of
  \<^verbatim>\<open>env.py\<close> matches the pytest pattern and the unittest pattern and has two
  findings.
\<close>

theorem two_findings_for_one_line:
  "map_sum id (map line) (detect_test_environment_checks example_files ''env.py'')
     = Inr [2, 2, 3]
   \<and> map_sum id (map description) (detect_test_environment_checks example_files ''env.py'')
     = Inr [''pytest module detection'', ''unittest module detection'', ''TESTING flag'']"
  by code_simp

lemma hc_visit_severity:
  assumes "Inr p \<in> set (hc_visit lines f tvs st)"
  shows "severity p = ''high''"
proof -
  from assms obtain lno t b where "Inr p \<in> set (visit_If lines f tvs lno t b)"
    by (auto simp: hc_visit_nodes)
  then obtain s where "Inr p \<in> set (hardcoded_return lines f tvs lno (unparse t) s)"
    by (auto simp: visit_If_def)
  from hardcoded_return_member [OF this] show ?thesis by simp
qed

lemma visit_Dict_severity:
  assumes "Inr p \<in> set (visit_Dict lines f tvs lno ks)"
  shows "severity p = ''high''"
proof (cases "index_list lines (lno - 1)")
  case (Inl e)
  with assms show ?thesis by (simp add: visit_Dict_def split: if_splits)
next
  case (Inr l)
  with assms show ?thesis by (simp add: visit_Dict_def split: if_splits)
qed

lemma lt_stmt_severity:
  assumes "Inr p \<in> set (lt_stmt lines f tvs st)"
  shows "severity p = ''high''"
proof -
  from assms obtain lno ks where "Inr p \<in> set (visit_Dict lines f tvs lno ks)"
    by (auto simp: lt_stmt_nodes)
  then show ?thesis by (rule visit_Dict_severity)
qed

lemma te_lines_severity:
  assumes "p \<in> set (te_lines f i ls)"
  shows "severity p = ''high''"
  using assms by (auto simp: te_lines_eq te_line_eq)

lemma ec_visit_severity:
  assumes "p \<in> set (ec_visit f st)"
  shows "severity p = ''medium''"
proof -
  from assms obtain nm lno end_lno b where "p \<in> set (visit_FunctionDef f nm lno end_lno b)"
    by (auto simp: ec_visit_nodes)
  then show ?thesis by (simp add: visit_FunctionDef_def Let_def split: if_splits)
qed

lemma collect_member:
  assumes "collect (concat (map V tree)) = Inr ps" and "p \<in> set ps"
  shows "\<exists>st. Inr p \<in> set (V st)"
proof -
  from assms(1) have e: "concat (map V tree) = map Inr ps" by (simp add: collect_Inr)
  from assms(2) have "Inr p \<in> set (map Inr ps)" by simp
  then have "Inr p \<in> set (concat (map V tree))" by (simp only: e)
  then show ?thesis by auto
qed

lemma detect_cheating_severity:
  assumes "detect_cheating fs parse impl_file test_file = Inr ps" and "p \<in> set ps"
  shows "severity p = ''high'' \<or> severity p = ''medium''"
proof -
  from assms(1) obtain tvs p1 p2 p3 p4 where
    d1: "detect_hardcoded_returns fs parse impl_file tvs = Inr p1" and
    d2: "detect_lookup_tables fs parse impl_file tvs = Inr p2" and
    d3: "detect_test_environment_checks fs impl_file = Inr p3" and
    d4: "detect_excessive_conditionals fs parse impl_file = Inr p4" and
    ps: "ps = p1 @ p2 @ p3 @ p4"
    by (auto simp: detect_cheating_def split: sum.splits)
  from d1 obtain content tree where
    c1: "collect (concat (map (hc_visit (split_nl content) impl_file tvs) tree)) = Inr p1"
    by (auto simp: detect_hardcoded_returns_def split: sum.splits)
  from d2 obtain content' tree' where
    c2: "collect (concat (map (lt_stmt (split_nl content') impl_file tvs) tree')) = Inr p2"
    by (auto simp: detect_lookup_tables_def split: sum.splits)
  from d3 obtain content'' where c3: "p3 = te_lines impl_file 1 (split_nl content'')"
    by (auto simp: detect_test_environment_checks_def split: sum.splits)
  from d4 obtain tree'' where c4: "p4 = concat (map (ec_visit impl_file) tree'')"
    by (auto simp: detect_excessive_conditionals_def split: sum.splits)
  from assms(2) ps consider "p \<in> set p1" | "p \<in> set p2" | "p \<in> set p3" | "p \<in> set p4"
    by auto
  then show ?thesis
  proof cases
    case 1
    from collect_member [OF c1 1] hc_visit_severity show ?thesis by blast
  next
    case 2
    from collect_member [OF c2 2] lt_stmt_severity show ?thesis by blast
  next
    case 3
    then show ?thesis using te_lines_severity c3 by blast
  next
    case 4
    then obtain st where "p \<in> set (ec_visit impl_file st)" using c4 by auto
    then show ?thesis using ec_visit_severity by blast
  qed
qed

lemma severity_counts:
  "\<forall>p \<in> set ps. severity p = ''high'' \<or> severity p = ''medium'' \<Longrightarrow>
   count_severity ''high'' ps + count_severity ''medium'' ps + count_severity ''low'' ps
     = int (length ps)"
  by (induction ps) (auto simp: count_severity_def)

text \<open>
  Claim C9. In every JSON report, \<^verbatim>\<open>clean\<close> says that there are no findings, and
  the three counts add up to the number of findings: every finding of the four detectors
  has high or medium severity.
\<close>

theorem json_report_invariant:
  "main fs parse argv = (Json r, code) \<Longrightarrow>
     clean r = (length (patterns r) = 0)
   \<and> high_severity r + medium_severity r + low_severity r = int (length (patterns r))"
proof -
  assume m: "main fs parse argv = (Json r, code)"
  then obtain ps where d: "detect_cheating fs parse (argv ! 1) (argv ! 2) = Inr ps"
    and r: "r = \<lparr>clean = (length ps = 0), patterns = ps,
                  high_severity = count_severity ''high'' ps,
                  medium_severity = count_severity ''medium'' ps,
                  low_severity = count_severity ''low'' ps\<rparr>"
    by (auto simp: main_def Let_def split: if_splits sum.splits)
  have "\<forall>p \<in> set ps. severity p = ''high'' \<or> severity p = ''medium''"
    using detect_cheating_severity [OF d] by blast
  from severity_counts [OF this] r show ?thesis by simp
qed

lemma unreadable_input_raises:
  assumes "fs impl_file = None \<or> fs test_file = None
           \<or> (\<exists>c. fs impl_file = Some c \<and> parse c = None)
           \<or> (\<exists>c. fs test_file = Some c \<and> parse c = None)"
  shows "detect_cheating fs parse impl_file test_file = Inl OSError
         \<or> detect_cheating fs parse impl_file test_file = Inl SyntaxError"
proof (cases "extract_test_values fs parse test_file")
  case (Inl e)
  then have "e = OSError \<or> e = SyntaxError"
    by (auto simp: extract_test_values_def read_text_def ast_parse_def Let_def
             split: option.splits)
  with Inl show ?thesis by (auto simp: detect_cheating_def)
next
  case (Inr tvs)
  then obtain c t where "fs test_file = Some c" "parse c = Some t"
    by (auto simp: extract_test_values_def read_text_def ast_parse_def Let_def
             split: option.splits)
  with assms have "fs impl_file = None \<or> (\<exists>c. fs impl_file = Some c \<and> parse c = None)"
    by auto
  then have "detect_hardcoded_returns fs parse impl_file tvs = Inl OSError
             \<or> detect_hardcoded_returns fs parse impl_file tvs = Inl SyntaxError"
    by (auto simp: detect_hardcoded_returns_def read_text_def ast_parse_def)
  with Inr show ?thesis by (auto simp: detect_cheating_def)
qed

text \<open>
  Claim C1, as the code has it. With fewer than two file arguments the usage text is
  printed and the exit status is 1. When one of the two files is missing or cannot be
  parsed, or the detectors raise otherwise, the traceback is printed and the status is 1.
  Otherwise,
  without \<^verbatim>\<open>--json\<close> the status is 1 when there is a finding and 0 when there is none,
  and with \<^verbatim>\<open>--json\<close> it is 0 in both cases and the printed report has the findings
  and a \<^verbatim>\<open>clean\<close> flag that says whether there are none.
\<close>

theorem exit_status:
  "main fs parse argv = (out, code) \<Longrightarrow>
     (length argv < 3 \<longrightarrow> out = Usage \<and> code = 1)
   \<and> (length argv \<ge> 3 \<longrightarrow>
        (fs (argv ! 1) = None \<or> fs (argv ! 2) = None
           \<or> (\<exists>c. fs (argv ! 1) = Some c \<and> parse c = None)
           \<or> (\<exists>c. fs (argv ! 2) = Some c \<and> parse c = None) \<longrightarrow>
         (out = Traceback OSError \<or> out = Traceback SyntaxError) \<and> code = 1)
      \<and> (\<forall>e. detect_cheating fs parse (argv ! 1) (argv ! 2) = Inl e \<longrightarrow>
            out = Traceback e \<and> code = 1)
      \<and> (\<forall>ps. detect_cheating fs parse (argv ! 1) (argv ! 2) = Inr ps \<longrightarrow>
            (''--json'' \<notin> set argv \<longrightarrow>
               (code \<noteq> 0 \<longleftrightarrow> ps \<noteq> []) \<and> (code = 1 \<longleftrightarrow> ps \<noteq> []) \<and> (code = 0 \<longleftrightarrow> ps = []))
          \<and> (''--json'' \<in> set argv \<longrightarrow>
               code = 0 \<and> (\<exists>r. out = Json r \<and> patterns r = ps \<and> (clean r \<longleftrightarrow> ps = [])))))"
proof -
  assume m: "main fs parse argv = (out, code)"
  have a: "out = Usage \<and> code = 1" if "length argv < 3"
    using m that by (simp add: main_def)
  have b: "out = Traceback e \<and> code = 1"
    if "length argv \<ge> 3" "detect_cheating fs parse (argv ! 1) (argv ! 2) = Inl e" for e
  proof -
    from that have "main fs parse argv = (Traceback e, 1)" by (simp add: main_def Let_def)
    with m show ?thesis by simp
  qed
  have c: "(out = Traceback OSError \<or> out = Traceback SyntaxError) \<and> code = 1"
    if l: "length argv \<ge> 3"
      and u: "fs (argv ! 1) = None \<or> fs (argv ! 2) = None
           \<or> (\<exists>c. fs (argv ! 1) = Some c \<and> parse c = None)
           \<or> (\<exists>c. fs (argv ! 2) = Some c \<and> parse c = None)"
  proof -
    from unreadable_input_raises [OF u]
    consider "detect_cheating fs parse (argv ! 1) (argv ! 2) = Inl OSError"
      | "detect_cheating fs parse (argv ! 1) (argv ! 2) = Inl SyntaxError"
      by blast
    then show ?thesis
    proof cases
      case 1
      from b [OF l 1] show ?thesis by simp
    next
      case 2
      from b [OF l 2] show ?thesis by simp
    qed
  qed
  have d1: "(code \<noteq> 0 \<longleftrightarrow> ps \<noteq> []) \<and> (code = 1 \<longleftrightarrow> ps \<noteq> []) \<and> (code = 0 \<longleftrightarrow> ps = [])"
    if "length argv \<ge> 3" "detect_cheating fs parse (argv ! 1) (argv ! 2) = Inr ps"
      "''--json'' \<notin> set argv" for ps
  proof (cases "ps = []")
    case True
    with that have "main fs parse argv = (Clean, 0)" by (simp add: main_def Let_def)
    with m True show ?thesis by simp
  next
    case False
    with that have "snd (main fs parse argv) = 1" by (simp add: main_def Let_def)
    with m False show ?thesis by simp
  qed
  have d2: "code = 0 \<and> (\<exists>r. out = Json r \<and> patterns r = ps \<and> (clean r \<longleftrightarrow> ps = []))"
    if "length argv \<ge> 3" "detect_cheating fs parse (argv ! 1) (argv ! 2) = Inr ps"
      "''--json'' \<in> set argv" for ps
  proof -
    let ?r = "\<lparr>clean = (length ps = 0), patterns = ps,
               high_severity = count_severity ''high'' ps,
               medium_severity = count_severity ''medium'' ps,
               low_severity = count_severity ''low'' ps\<rparr>"
    from that have "main fs parse argv = (Json ?r, 0)" by (simp add: main_def Let_def)
    with m have o: "out = Json ?r" and z: "code = 0" by simp_all
    have "patterns ?r = ps \<and> (clean ?r \<longleftrightarrow> ps = [])" by simp
    with o have "\<exists>r. out = Json r \<and> patterns r = ps \<and> (clean r \<longleftrightarrow> ps = [])" by blast
    with z show ?thesis by simp
  qed
  show ?thesis
  proof (intro conjI impI allI)
    assume "length argv < 3"
    then show "out = Usage" "code = 1" using a by simp_all
  next
    assume l: "3 \<le> length argv"
      and u: "fs (argv ! 1) = None \<or> fs (argv ! 2) = None
           \<or> (\<exists>c. fs (argv ! 1) = Some c \<and> parse c = None)
           \<or> (\<exists>c. fs (argv ! 2) = Some c \<and> parse c = None)"
    from c [OF l u] show "out = Traceback OSError \<or> out = Traceback SyntaxError" "code = 1"
      by simp_all
  next
    fix e assume "3 \<le> length argv" "detect_cheating fs parse (argv ! 1) (argv ! 2) = Inl e"
    from b [OF this] show "out = Traceback e" "code = 1" by simp_all
  next
    fix ps assume h: "3 \<le> length argv" "detect_cheating fs parse (argv ! 1) (argv ! 2) = Inr ps"
      "''--json'' \<notin> set argv"
    from d1 [OF h] show "(code \<noteq> 0) = (ps \<noteq> [])" "(code = 1) = (ps \<noteq> [])"
      "(code = 0) = (ps = [])"
      by simp_all
  next
    fix ps assume h: "3 \<le> length argv" "detect_cheating fs parse (argv ! 1) (argv ! 2) = Inr ps"
      "''--json'' \<in> set argv"
    from d2 [OF h] show "code = 0" "\<exists>r. out = Json r \<and> patterns r = ps \<and> (clean r \<longleftrightarrow> ps = [])"
      by simp_all
  qed
qed

lemma square_main_json:
  "main example_files example_parser
     [''detect_cheating.py'', ''square.py'', ''test_square.py'', ''--json''] =
   (Json \<lparr>clean = False,
          patterns = [\<lparr>pattern_type = ''hardcoded_return'',
                        description = ''Returns 25 when condition matches test input'',
                        file = ''square.py'', line = 1,
                        code_snippet = ''if x == 5: return 25'', severity = ''high''\<rparr>],
          high_severity = 1, medium_severity = 0, low_severity = 0\<rparr>, 0)"
  by code_simp

lemma square_main:
  "main example_files example_parser [''detect_cheating.py'', ''square.py'', ''test_square.py'']
     = (Detected 1
          [\<lparr>pattern_type = ''hardcoded_return'',
             description = ''Returns 25 when condition matches test input'',
             file = ''square.py'', line = 1,
             code_snippet = ''if x == 5: return 25'', severity = ''high''\<rparr>] [], 1)"
  by code_simp

lemma square24_main:
  "main example_files example_parser [''detect_cheating.py'', ''square24.py'', ''test_square.py'']
     = (Clean, 0)"
  by code_simp

lemma square_detect:
  "detect_cheating example_files example_parser ''square.py'' ''test_square.py'' =
     Inr [\<lparr>pattern_type = ''hardcoded_return'',
            description = ''Returns 25 when condition matches test input'',
            file = ''square.py'', line = 1,
            code_snippet = ''if x == 5: return 25'', severity = ''high''\<rparr>]"
  by code_simp

text \<open>
  Claim C9, witness: the theorem at \<^verbatim>\<open>square.py\<close> with \<^verbatim>\<open>--json\<close>.
\<close>

theorem json_report_invariant_witness:
  "main example_files example_parser
     [''detect_cheating.py'', ''square.py'', ''test_square.py'', ''--json''] =
   (Json \<lparr>clean = False,
          patterns = [\<lparr>pattern_type = ''hardcoded_return'',
                        description = ''Returns 25 when condition matches test input'',
                        file = ''square.py'', line = 1,
                        code_snippet = ''if x == 5: return 25'', severity = ''high''\<rparr>],
          high_severity = 1, medium_severity = 0, low_severity = 0\<rparr>, 0)
   \<and> (1::int) + 0 + 0 = int (length [\<lparr>pattern_type = ''hardcoded_return'',
                        description = ''Returns 25 when condition matches test input'',
                        file = ''square.py'', line = 1,
                        code_snippet = ''if x == 5: return 25'', severity = ''high''\<rparr>])"
  using json_report_invariant [OF square_main_json] square_main_json by simp

text \<open>
  Claim C1, counterexample. The claim as stated fails: with \<^verbatim>\<open>--json\<close>, the run
  on \<^verbatim>\<open>square.py\<close> reports one finding and exits with status 0.
\<close>

theorem json_exit_status_zero_with_finding:
  "snd (main example_files example_parser
          [''detect_cheating.py'', ''square.py'', ''test_square.py'', ''--json'']) = 0
   \<and> map_sum id length
        (detect_cheating example_files example_parser ''square.py'' ''test_square.py'') = Inr 1"
  by (simp add: square_main_json square_detect)

lemma missing_main:
  "main example_files example_parser [''detect_cheating.py'', ''missing.py'', ''test_square.py'']
     = (Traceback OSError, 1)"
  by code_simp

lemma broken_main:
  "main example_files example_parser [''detect_cheating.py'', ''broken.py'', ''test_square.py'']
     = (Traceback SyntaxError, 1)"
  by code_simp

text \<open>
  Claim C1, witness: the theorem at \<^verbatim>\<open>square.py\<close>, with and without
  \<^verbatim>\<open>--json\<close>, at \<^verbatim>\<open>square24.py\<close>, at a run without arguments, at a missing file
  and at a file that is not Python.
\<close>

theorem exit_status_witness:
  "main example_files example_parser [''detect_cheating.py'', ''square.py'', ''test_square.py'']
     = (Detected 1
          [\<lparr>pattern_type = ''hardcoded_return'',
             description = ''Returns 25 when condition matches test input'',
             file = ''square.py'', line = 1,
             code_snippet = ''if x == 5: return 25'', severity = ''high''\<rparr>] [], 1)
   \<and> length [''detect_cheating.py'', ''square.py'', ''test_square.py''] \<ge> 3
   \<and> ''--json'' \<notin> set [''detect_cheating.py'', ''square.py'', ''test_square.py'']
   \<and> detect_cheating example_files example_parser ''square.py'' ''test_square.py'' \<noteq> Inr []
   \<and> snd (main example_files example_parser
            [''detect_cheating.py'', ''square.py'', ''test_square.py'', ''--json'']) = 0
   \<and> ''--json'' \<in> set [''detect_cheating.py'', ''square.py'', ''test_square.py'', ''--json'']
   \<and> snd (main example_files example_parser
            [''detect_cheating.py'', ''square24.py'', ''test_square.py'']) = 0
   \<and> snd (main example_files example_parser [''detect_cheating.py'']) = 1
   \<and> example_files ''missing.py'' = None
   \<and> snd (main example_files example_parser
            [''detect_cheating.py'', ''missing.py'', ''test_square.py'']) = 1
   \<and> example_files ''broken.py'' = Some broken_py
   \<and> example_parser broken_py = None
   \<and> snd (main example_files example_parser
            [''detect_cheating.py'', ''broken.py'', ''test_square.py'']) = 1"
proof -
  have u: "main example_files example_parser [''detect_cheating.py''] = (Usage, 1)"
    by (simp add: main_def)
  have f: "example_files ''missing.py'' = None" "example_files ''broken.py'' = Some broken_py"
    "example_parser broken_py = None"
    by code_simp+
  show ?thesis
    using exit_status [OF square_main] exit_status [OF square_main_json]
      exit_status [OF square24_main] exit_status [OF u]
      exit_status [OF missing_main] exit_status [OF broken_main]
      square_main square_main_json square24_main square_detect u f missing_main broken_main
    by simp
qed

end
